theory Spec2Isabelle
  imports Complex_Main
begin

section \<open>The synonym dataset notebook\<close>

text \<open>
  The notebook \<^verbatim>\<open>notebooks/synonyms_wordnet.ipynb\<close> builds one synonym graph per part of
  speech from WordNet synsets (\<^verbatim>\<open>get_syngraph_wordset\<close>) and then generates labelled word
  pairs from the graphs (\<^verbatim>\<open>create_dataset\<close>). Both functions are embedded below, together
  with the library calls they rely on: the \<^verbatim>\<open>networkx.Graph\<close> methods,
  \<^verbatim>\<open>itertools.combinations\<close>, \<^verbatim>\<open>editdistance.eval\<close> and \<^verbatim>\<open>random.choices\<close>.
  The \<^verbatim>\<open>print\<close> calls of the notebook have no effect on the values and are left out.
  Words are strings of single-byte characters, as the lemma names of WordNet are.
\<close>

subsection \<open>Library: the undirected graph\<close>

text \<open>
  A \<^verbatim>\<open>networkx.Graph\<close> keeps a dictionary \<^verbatim>\<open>_adj\<close> from each node to the dictionary of its
  neighbours. Python dictionaries iterate in insertion order and the notebook depends on
  that order (the edge order decides the split), so the graph is an association list
  from nodes to neighbour lists, both in insertion order.
\<close>

type_synonym Graph = "(string \<times> string list) list"

text \<open>\<^verbatim>\<open>if u not in self._node: self._adj[u] = {}\<close>\<close>

definition add_node :: "Graph \<Rightarrow> string \<Rightarrow> Graph" where
  "add_node g u = (if u \<in> set (map fst g) then g else g @ [(u, [])])"

text \<open>\<^verbatim>\<open>self._adj[u][v] = datadict\<close>: a key that is already present keeps its position.\<close>

definition set_adj :: "Graph \<Rightarrow> string \<Rightarrow> string \<Rightarrow> Graph" where
  "set_adj g u v =
     map (\<lambda>(n, nbrs). if n = u then (n, if v \<in> set nbrs then nbrs else nbrs @ [v])
                       else (n, nbrs)) g"

definition add_edge :: "Graph \<Rightarrow> string \<times> string \<Rightarrow> Graph" where
  "add_edge g e =
     (case e of (u, v) \<Rightarrow> set_adj (set_adj (add_node (add_node g u) v) u v) v u)"

definition add_edges_from :: "Graph \<Rightarrow> (string \<times> string) list \<Rightarrow> Graph" where
  "add_edges_from g ebunch = foldl add_edge g ebunch"

definition nodes :: "Graph \<Rightarrow> string list" where
  "nodes g = map fst g"

text \<open>\<^verbatim>\<open>graph.neighbors(n)\<close> raises for a node that is not in the graph: \<open>None\<close> here.\<close>

definition neighbors :: "Graph \<Rightarrow> string \<Rightarrow> string list option" where
  "neighbors g n = map_of g n"

text \<open>
  \<^verbatim>\<open>graph.edges\<close> walks the nodes in order and, for each node, its neighbours in order;
  it reports \<^verbatim>\<open>(n, nbr)\<close> unless \<^verbatim>\<open>nbr\<close> is a node the walk has already finished.
\<close>

fun edges_seen :: "string list \<Rightarrow> Graph \<Rightarrow> (string \<times> string) list" where
  "edges_seen seen [] = []"
| "edges_seen seen ((n, nbrs) # rest) =
     map (Pair n) (filter (\<lambda>nbr. nbr \<notin> set seen) nbrs) @ edges_seen (n # seen) rest"

definition edges :: "Graph \<Rightarrow> (string \<times> string) list" where
  "edges g = edges_seen [] g"

text \<open>
  Two nodes are adjacent when the second is among the neighbours of the first. A Python
  dictionary holds a key once, so in every \<^verbatim>\<open>networkx.Graph\<close> the nodes are distinct and
  so are the neighbours of each node: \<open>wf_graph\<close>.
\<close>

definition adjacent :: "Graph \<Rightarrow> string \<Rightarrow> string \<Rightarrow> bool" where
  "adjacent g u v \<longleftrightarrow> (case neighbors g u of None \<Rightarrow> False | Some nbrs \<Rightarrow> v \<in> set nbrs)"

definition wf_graph :: "Graph \<Rightarrow> bool" where
  "wf_graph g \<longleftrightarrow> distinct (map fst g) \<and> list_all (\<lambda>(n, nbrs). distinct nbrs) g"

subsection \<open>Library: combinations, edit distance, random choices\<close>

text \<open>\<^verbatim>\<open>itertools.combinations(xs, 2)\<close>: the pairs of positions \<open>i < j\<close>, in lexicographic order.\<close>

fun combinations2 :: "'a list \<Rightarrow> ('a \<times> 'a) list" where
  "combinations2 [] = []"
| "combinations2 (x # xs) = map (Pair x) xs @ combinations2 xs"

text \<open>\<^verbatim>\<open>editdistance.eval\<close> is the Levenshtein distance.\<close>

fun editdistance_eval :: "string \<Rightarrow> string \<Rightarrow> nat" where
  "editdistance_eval [] b = length b"
| "editdistance_eval (x # a) [] = Suc (length a)"
| "editdistance_eval (x # a) (y # b) =
     min (min (editdistance_eval a (y # b) + 1) (editdistance_eval (x # a) b + 1))
         (editdistance_eval a b + (if x = y then 0 else 1))"

datatype error = IndexError | KeyError | NetworkXError

text \<open>
  The pseudorandom generator is a sequence \<open>rng\<close> of natural numbers and the number \<open>i\<close>
  of draws made so far; the seed fixes the sequence. \<^verbatim>\<open>random.choices(population, k=k)\<close>
  returns \<^verbatim>\<open>[population[floor(random() * n)] for _ in range(k)]\<close>: each draw is an index
  below \<open>n\<close>, here \<open>rng i mod n\<close>, and indexing the empty population raises
  \<^verbatim>\<open>IndexError\<close> as soon as one draw is made. The count \<open>k\<close> is a natural number; Python
  treats a negative count like zero.
\<close>

definition choices ::
  "(nat \<Rightarrow> nat) \<Rightarrow> nat \<Rightarrow> 'a list \<Rightarrow> nat \<Rightarrow> error + ('a list \<times> nat)" where
  "choices rng i population k =
     (if k = 0 then Inr ([], i)
      else if population = [] then Inl IndexError
      else Inr (map (\<lambda>j. population ! (rng (i + j) mod length population)) [0..<k], i + k))"

subsection \<open>Library: Python sets\<close>

text \<open>
  A Python set is a list without repetitions. The order in which Python iterates a set
  is unspecified; it shows only in \<^verbatim>\<open>list(...)\<close> of the negative pool, from which
  \<open>choices\<close> draws at positions that are arbitrary anyway.
\<close>

definition set_add :: "'a list \<Rightarrow> 'a \<Rightarrow> 'a list" where
  "set_add s x = (if x \<in> set s then s else s @ [x])"

definition set_update :: "'a list \<Rightarrow> 'a list \<Rightarrow> 'a list" where
  "set_update s xs = foldl set_add s xs"

definition set_intersection :: "'a list \<Rightarrow> 'a list \<Rightarrow> 'a list" where
  "set_intersection a b = filter (\<lambda>x. x \<in> set b) a"

definition set_difference :: "'a list \<Rightarrow> 'a list \<Rightarrow> 'a list" where
  "set_difference a b = filter (\<lambda>x. x \<notin> set b) a"

subsection \<open>The graph builder\<close>

definition is_single_word :: "string \<Rightarrow> bool" where
  "is_single_word word \<longleftrightarrow> CHR ''_'' \<notin> set word \<and> CHR ''-'' \<notin> set word"

text \<open>
  A synset is given by its \<^verbatim>\<open>lemma_names()\<close>. \<open>add_synset\<close> is the body of the loop over the
  synsets of one part of speech, \<open>syn_graph\<close> the loop.
\<close>

definition add_synset :: "Graph \<Rightarrow> string list \<Rightarrow> Graph" where
  "add_synset g synset =
     (let lemma_names = filter is_single_word synset
      in if length lemma_names > 1 then add_edges_from g (combinations2 lemma_names) else g)"

definition syn_graph :: "string list list \<Rightarrow> Graph" where
  "syn_graph synsets = foldl add_synset [] synsets"

definition get_syngraph_wordset ::
  "(string \<times> string list list) list \<Rightarrow> (string \<times> Graph) list" where
  "get_syngraph_wordset pos_synsets =
     map (\<lambda>(pos, synsets). (pos, syn_graph synsets)) pos_synsets"

subsection \<open>The splitter\<close>

text \<open>
  A Python float is an IEEE 754 double: a rational number with a significand of 53 bits.
  \<open>round_double\<close> rounds a rational number to the nearest double, a tie to the even
  significand, and below \<^verbatim>\<open>2**-1022\<close> to the nearest multiple of \<^verbatim>\<open>2**-1074\<close> (the subnormal
  doubles). It is what Python does when it reads a literal such as \<^verbatim>\<open>0.58\<close> or \<^verbatim>\<open>1.15\<close>, when
  it converts an \<^verbatim>\<open>int\<close> for a product with a float, and when it rounds the exact product of
  two doubles. In the model the train fraction and the weights are the numbers as they
  are written, and every use rounds them first. The exponent is not bounded above: a
  value of magnitude \<^verbatim>\<open>2**1024\<close> or more, which is infinite in Python, is outside the model,
  and so are an infinite train fraction and one that is not a number.
  \<^verbatim>\<open>int(x)\<close> truncates towards zero.
\<close>

text \<open>\<^verbatim>\<open>int.bit_length\<close>, for the position of the leading bit.\<close>

function bit_length :: "int \<Rightarrow> int" where
  "bit_length n = (if n \<le> 0 then 0 else 1 + bit_length (n div 2))"
  by pat_completeness auto
termination
  by (relation "measure nat") auto

declare bit_length.simps [simp del]

text \<open>For \<open>x > 0\<close>, the exponent \<open>e\<close> with \<open>2\<^sup>e \<le> x < 2\<^sup>e\<^sup>+\<^sup>1\<close>.\<close>

definition floor_log2 :: "rat \<Rightarrow> int" where
  "floor_log2 x =
     (if 1 \<le> x then bit_length \<lfloor>x\<rfloor> - 1 else - bit_length (\<lceil>1 / x\<rceil> - 1))"

definition pow2 :: "int \<Rightarrow> rat" where
  "pow2 e = (if 0 \<le> e then 2 ^ nat e else 1 / 2 ^ nat (- e))"

definition round_half_even :: "rat \<Rightarrow> int" where
  "round_half_even x =
     (let f = \<lfloor>x\<rfloor>; d = x - of_int f
      in if d < 1 / 2 then f else if 1 / 2 < d then f + 1 else if even f then f else f + 1)"

definition round_double :: "rat \<Rightarrow> rat" where
  "round_double x =
     (if x = 0 then 0
      else let q = pow2 (max (floor_log2 \<bar>x\<bar> - 52) (- 1074))
           in sgn x * of_int (round_half_even (\<bar>x\<bar> / q)) * q)"

text \<open>The product of two doubles.\<close>

definition float_mul :: "rat \<Rightarrow> rat \<Rightarrow> rat" where
  "float_mul a b = round_double (a * b)"

definition weights :: "string \<Rightarrow> rat option" where
  "weights = map_of [(''verb'', 115 / 100), (''adjective'', 1), (''noun'', 1)]"

definition py_int :: "rat \<Rightarrow> int" where
  "py_int x = (if x < 0 then \<lceil>x\<rceil> else \<lfloor>x\<rfloor>)"

record split_state =
  train_words :: "string list"
  test_words :: "string list"
  train_edges :: "(string \<times> string) list"
  test_edges :: "(string \<times> string) list"

definition split_init :: split_state where
  "split_init = \<lparr>train_words = [], test_words = [], train_edges = [], test_edges = []\<rparr>"

text \<open>
  \<^verbatim>\<open>train_len*weights[pos]\<close>, the product of an \<^verbatim>\<open>int\<close> and a float; Python compares the
  \<^verbatim>\<open>int\<close> \<^verbatim>\<open>len(train_words)\<close> with it exactly.
\<close>

definition threshold_of :: "int \<Rightarrow> rat \<Rightarrow> rat" where
  "threshold_of train_len w = float_mul (round_double (of_int train_len)) (round_double w)"

definition goes_to_train :: "int \<Rightarrow> rat \<Rightarrow> split_state \<Rightarrow> bool" where
  "goes_to_train train_len w st \<longleftrightarrow>
     of_nat (length (train_words st)) < threshold_of train_len w"

definition split_step :: "int \<Rightarrow> rat \<Rightarrow> split_state \<Rightarrow> string \<times> string \<Rightarrow> split_state" where
  "split_step train_len w st e =
     (case e of (x, y) \<Rightarrow>
        if goes_to_train train_len w st
        then st\<lparr>train_edges := train_edges st @ [(x, y)],
                train_words := set_update (train_words st) [x, y]\<rparr>
        else st\<lparr>test_edges := test_edges st @ [(x, y)],
                test_words := set_update (test_words st) [x, y]\<rparr>)"

text \<open>\<^verbatim>\<open>weights[pos]\<close> is looked up at every edge and raises \<^verbatim>\<open>KeyError\<close> for an unknown key.\<close>

fun split_edges ::
  "string \<Rightarrow> int \<Rightarrow> (string \<times> string) list \<Rightarrow> split_state \<Rightarrow> error + split_state" where
  "split_edges pos train_len [] st = Inr st"
| "split_edges pos train_len (e # es) st =
     (case weights pos of
        None \<Rightarrow> Inl KeyError
      | Some w \<Rightarrow> split_edges pos train_len es (split_step train_len w st e))"

text \<open>\<^verbatim>\<open>int(all_words_len*train_test_component_ratio)\<close>\<close>

definition train_len_of :: "Graph \<Rightarrow> rat \<Rightarrow> int" where
  "train_len_of graph train_test_component_ratio =
     py_int (float_mul (round_double (of_nat (length (nodes graph))))
                       (round_double train_test_component_ratio))"

definition split_graph :: "string \<Rightarrow> Graph \<Rightarrow> rat \<Rightarrow> error + split_state" where
  "split_graph pos graph train_test_component_ratio =
     split_edges pos (train_len_of graph train_test_component_ratio) (edges graph) split_init"

definition intersection :: "split_state \<Rightarrow> string list" where
  "intersection st = set_intersection (train_words st) (test_words st)"

definition train_sampling :: "split_state \<Rightarrow> string list" where
  "train_sampling st = set_difference (train_words st) (intersection st)"

definition test_sampling :: "split_state \<Rightarrow> string list" where
  "test_sampling st = set_difference (test_words st) (intersection st)"

text \<open>
  The words of a list of edges, as the set that \<^verbatim>\<open>update({x, y})\<close> builds up edge by edge,
  and the threshold the loop compares \<^verbatim>\<open>len(train_words)\<close> with.
\<close>

definition endpoints :: "(string \<times> string) list \<Rightarrow> string list" where
  "endpoints es = concat (map (\<lambda>(x, y). [x, y]) es)"

definition words_of :: "(string \<times> string) list \<Rightarrow> string list" where
  "words_of es = set_update [] (endpoints es)"

text \<open>
  Python computes \<^verbatim>\<open>train_len\<close> and reaches the loop when the number of nodes, the train
  fraction and their product are finite doubles; \<^verbatim>\<open>int\<close> of an infinite product raises
  \<^verbatim>\<open>OverflowError\<close>.
\<close>

definition finite_double :: "rat \<Rightarrow> bool" where
  "finite_double x \<longleftrightarrow> \<bar>x\<bar> < 2 ^ 1024"

definition train_len_finite :: "Graph \<Rightarrow> rat \<Rightarrow> bool" where
  "train_len_finite g r \<longleftrightarrow>
     finite_double (round_double (of_nat (length (nodes g)))) \<and>
     finite_double (round_double r) \<and>
     finite_double (float_mul (round_double (of_nat (length (nodes g)))) (round_double r))"

definition code_threshold :: "Graph \<Rightarrow> rat \<Rightarrow> rat \<Rightarrow> rat" where
  "code_threshold g r m = threshold_of (train_len_of g r) m"

text \<open>
  The threshold as the specification words it, \<open>r \<cdot> m \<cdot> |all_vertices|\<close>; it is not used by
  the model and is only compared with \<open>code_threshold\<close>.
\<close>

definition spec_threshold :: "Graph \<Rightarrow> rat \<Rightarrow> rat \<Rightarrow> rat" where
  "spec_threshold g r m = r * m * of_nat (length (nodes g))"

text \<open>
  The edges in the order in which the builder inserts them, an edge that is added again
  keeping its first place: the order the specification names. It is not used by the model
  and is only compared with \<open>edges\<close>.
\<close>

definition spec_edge_order :: "string list list \<Rightarrow> (string \<times> string) list" where
  "spec_edge_order synsets =
     foldl (\<lambda>seen (u, v). if (u, v) \<in> set seen \<or> (v, u) \<in> set seen then seen
                           else seen @ [(u, v)])
       [] (concat (map (\<lambda>synset. combinations2 (filter is_single_word synset)) synsets))"

subsection \<open>The sampler\<close>

record PairRecord =
  word1 :: string
  word2 :: string
  synonym :: nat
  pos :: string
  split :: string

text \<open>
  A run of the generator is the list of the records it has yielded, the exception that
  ended it (if any) and the number of random draws made.
\<close>

type_synonym run = "PairRecord list \<times> error option \<times> nat"

text \<open>
  \<^verbatim>\<open>pos_words\<close>, the set of \<open>w1\<close> and its neighbours, and \<^verbatim>\<open>neg_words\<close>, the negative pool of
  the split \<open>sp\<close>.
\<close>

definition pos_words_of :: "string \<Rightarrow> string list \<Rightarrow> string list" where
  "pos_words_of w1 nbrs = remdups (w1 # nbrs)"

definition neg_words_of :: "split_state \<Rightarrow> string \<Rightarrow> string list \<Rightarrow> string list" where
  "neg_words_of st sp pos_words =
     (if sp = ''train'' then set_difference (train_sampling st) pos_words
      else set_difference (test_sampling st) pos_words)"

text \<open>One pass of the loop body for the edge \<open>(w1, w2)\<close> of the split \<open>sp\<close>.\<close>

definition emit_pair ::
  "Graph \<Rightarrow> string \<Rightarrow> split_state \<Rightarrow> nat \<Rightarrow> (nat \<Rightarrow> nat) \<Rightarrow> string \<Rightarrow> string \<times> string \<Rightarrow> nat
     \<Rightarrow> error + (PairRecord list \<times> nat)" where
  "emit_pair graph p st negative_sampling_count rng sp e i =
     (case e of (w1, w2) \<Rightarrow>
        if editdistance_eval w1 w2 < 2 then Inr ([], i)
        else if w1 \<in> set (intersection st) \<or> w2 \<in> set (intersection st) then Inr ([], i)
        else (case neighbors graph w1 of
                None \<Rightarrow> Inl NetworkXError
              | Some nbrs \<Rightarrow>
                  let neg_words = neg_words_of st sp (pos_words_of w1 nbrs)
                  in (case choices rng i neg_words negative_sampling_count of
                        Inl err \<Rightarrow> Inl err
                      | Inr (neg_sampling, i') \<Rightarrow>
                          Inr (\<lparr>word1 = w1, word2 = w2, synonym = 1, pos = p, split = sp\<rparr>
                               # map (\<lambda>w3. \<lparr>word1 = w1, word2 = w3, synonym = 0,
                                             pos = p, split = sp\<rparr>) neg_sampling,
                               i'))))"

text \<open>The loop over the edges of one split; an exception ends the run.\<close>

fun emit_pairs ::
  "Graph \<Rightarrow> string \<Rightarrow> split_state \<Rightarrow> nat \<Rightarrow> (nat \<Rightarrow> nat) \<Rightarrow> string \<Rightarrow> (string \<times> string) list
     \<Rightarrow> nat \<Rightarrow> run" where
  "emit_pairs graph p st k rng sp [] i = ([], None, i)"
| "emit_pairs graph p st k rng sp (e # es) i =
     (case emit_pair graph p st k rng sp e i of
        Inl err \<Rightarrow> ([], Some err, i)
      | Inr (recs, i') \<Rightarrow>
          (case emit_pairs graph p st k rng sp es i' of
             (later, fault, j) \<Rightarrow> (recs @ later, fault, j)))"

text \<open>Running one part of a generator after another.\<close>

definition and_then :: "run \<Rightarrow> (nat \<Rightarrow> run) \<Rightarrow> run" where
  "and_then r f =
     (case r of
        (recs, Some err, i) \<Rightarrow> (recs, Some err, i)
      | (recs, None, i) \<Rightarrow> (case f i of (later, fault, j) \<Rightarrow> (recs @ later, fault, j)))"

text \<open>The body of the loop over the parts of speech.\<close>

definition dataset_of_graph ::
  "string \<Rightarrow> Graph \<Rightarrow> rat \<Rightarrow> nat \<Rightarrow> (nat \<Rightarrow> nat) \<Rightarrow> nat \<Rightarrow> run" where
  "dataset_of_graph p graph train_test_component_ratio negative_sampling_count rng i =
     (case split_graph p graph train_test_component_ratio of
        Inl err \<Rightarrow> ([], Some err, i)
      | Inr st \<Rightarrow>
          and_then
            (emit_pairs graph p st negative_sampling_count rng ''train'' (train_edges st) i)
            (emit_pairs graph p st negative_sampling_count rng ''test'' (test_edges st)))"

fun dataset_from ::
  "(string \<times> Graph) list \<Rightarrow> rat \<Rightarrow> nat \<Rightarrow> (nat \<Rightarrow> nat) \<Rightarrow> nat \<Rightarrow> run" where
  "dataset_from [] r k rng i = ([], None, i)"
| "dataset_from ((p, graph) # rest) r k rng i =
     and_then (dataset_of_graph p graph r k rng i) (dataset_from rest r k rng)"

text \<open>\<^verbatim>\<open>create_dataset\<close>: the records yielded and the exception raised, if one was.\<close>

definition create_dataset ::
  "(string \<times> Graph) list \<Rightarrow> rat \<Rightarrow> nat \<Rightarrow> (nat \<Rightarrow> nat) \<Rightarrow> PairRecord list \<times> error option" where
  "create_dataset syn_graphs train_test_component_ratio negative_sampling_count rng =
     (case dataset_from syn_graphs train_test_component_ratio negative_sampling_count rng 0 of
        (recs, fault, _) \<Rightarrow> (recs, fault))"

subsection \<open>An example input\<close>

text \<open>
  Five synsets over eight words and the split of their graph at train fraction 1/2: two
  train edges, three test edges, and the word ddd among the train words and the test words.
\<close>

abbreviation mixed_synsets :: "string list list" where
  "mixed_synsets \<equiv>
     [[''aaa'', ''bbb''], [''ccc'', ''ddd''], [''ddd'', ''eee''], [''eee'', ''fff''],
      [''ggg'', ''hhh'']]"

abbreviation mixed_state :: split_state where
  "mixed_state \<equiv>
     \<lparr>train_words = [''aaa'', ''bbb'', ''ccc'', ''ddd''],
      test_words = [''ddd'', ''eee'', ''fff'', ''ggg'', ''hhh''],
      train_edges = [(''aaa'', ''bbb''), (''ccc'', ''ddd'')],
      test_edges = [(''ddd'', ''eee''), (''eee'', ''fff''), (''ggg'', ''hhh'')]\<rparr>"

section \<open>Properties\<close>

lemmas model_defs = create_dataset_def dataset_of_graph_def and_then_def emit_pair_def
  split_graph_def train_len_of_def nodes_def edges_def split_step_def
  goes_to_train_def split_init_def weights_def set_update_def set_add_def intersection_def
  set_intersection_def set_difference_def train_sampling_def test_sampling_def neighbors_def
  choices_def syn_graph_def add_synset_def is_single_word_def add_edges_from_def add_edge_def
  add_node_def set_adj_def pos_words_of_def neg_words_of_def

text \<open>The float operations at the numbers of the examples below.\<close>

lemma round_double_examples:
  "round_double 1 = 1" "round_double 2 = 2" "round_double 4 = 4" "round_double 5 = 5"
  "round_double 8 = 8" "round_double (1 / 2) = 1 / 2" "round_double (3 / 4) = 3 / 4"
  by code_simp+

lemma float_mul_examples:
  "float_mul 2 1 = 2" "float_mul 4 1 = 4" "float_mul 5 (1 / 2) = 5 / 2"
  "float_mul 4 (3 / 4) = 3" "float_mul 8 (1 / 2) = 4"
  by code_simp+

lemma threshold_of_examples:
  "threshold_of 2 1 = 2" "threshold_of 3 1 = 3" "threshold_of 4 1 = 4"
  "threshold_of 4 (23 / 20) = 2589569785738035 / 562949953421312"
  by code_simp+

lemma py_int_examples:
  "py_int 2 = 2" "py_int 3 = 3" "py_int 4 = 4" "py_int (5 / 2) = 2"
  by code_simp+

lemma finite_double_small: "\<bar>x\<bar> \<le> 1024 \<Longrightarrow> finite_double x"
proof -
  assume "\<bar>x\<bar> \<le> 1024"
  moreover have "(1024::rat) = 2 ^ 10"
    by simp
  moreover have "(2::rat) ^ 10 < 2 ^ 1024"
    by (rule power_strict_increasing) simp_all
  ultimately show ?thesis
    unfolding finite_double_def by linarith
qed

lemmas float_evals =
  round_double_examples float_mul_examples threshold_of_examples py_int_examples

text \<open>
  The two products that an exact product gets wrong: \<^verbatim>\<open>int(50*0.58)\<close> is 28 and
  \<^verbatim>\<open>int(10*0.3)\<close> is 3.
\<close>

lemma rounded_products:
  "py_int (float_mul (round_double 50) (round_double (58 / 100))) = 28"
  "py_int (float_mul (round_double 10) (round_double (3 / 10))) = 3"
  by code_simp+

subsection \<open>Facts about the graph\<close>

lemma map_fst_set_adj: "map fst (set_adj g u v) = map fst g"
  by (induction g) (auto simp: set_adj_def)

lemma map_of_set_adj:
  "map_of (set_adj g u v) x =
     (if x = u then map_option (\<lambda>ns. if v \<in> set ns then ns else ns @ [v]) (map_of g u)
      else map_of g x)"
  by (induction g) (auto simp: set_adj_def)

lemma map_of_absent: "u \<notin> fst ` set g \<Longrightarrow> map_of g u = None"
  by (simp add: map_of_eq_None_iff)

lemma map_of_add_node:
  "map_of (add_node g u) x = (if x = u \<and> u \<notin> fst ` set g then Some [] else map_of g x)"
proof (cases "u \<in> fst ` set g")
  case True
  then show ?thesis by (simp add: add_node_def)
next
  case False
  then show ?thesis
    by (cases "map_of g x") (auto simp: add_node_def map_add_def map_of_absent)
qed

lemma keys_set_adj: "fst ` set (set_adj g u v) = fst ` set g"
  using map_fst_set_adj[of g u v] by (metis list.set_map)

lemma keys_add_node: "fst ` set (add_node g u) = insert u (fst ` set g)"
  by (auto simp: add_node_def)

lemma adjacent_add_node: "adjacent (add_node g u) x y \<longleftrightarrow> adjacent g x y"
  by (auto simp: adjacent_def neighbors_def map_of_add_node map_of_absent)

lemma adjacent_set_adj:
  "adjacent (set_adj g a b) x y \<longleftrightarrow> adjacent g x y \<or> (x = a \<and> y = b \<and> a \<in> fst ` set g)"
proof (cases "map_of g a")
  case None
  then have "a \<notin> fst ` set g"
    by (simp add: map_of_eq_None_iff)
  then show ?thesis
    using None by (simp add: adjacent_def neighbors_def map_of_set_adj)
next
  case (Some ns)
  then have "a \<in> fst ` set g"
    by (metis map_of_eq_None_iff option.distinct(1))
  then show ?thesis
    using Some by (auto simp: adjacent_def neighbors_def map_of_set_adj)
qed

lemma adjacent_add_edge:
  "adjacent (add_edge g (u, v)) x y \<longleftrightarrow> adjacent g x y \<or> (x = u \<and> y = v) \<or> (x = v \<and> y = u)"
  by (auto simp: add_edge_def adjacent_set_adj keys_set_adj keys_add_node adjacent_add_node)

lemma adjacent_add_edges_from:
  "adjacent (add_edges_from g es) x y \<longleftrightarrow> adjacent g x y \<or> (x, y) \<in> set es \<or> (y, x) \<in> set es"
  unfolding add_edges_from_def
proof (induction es arbitrary: g)
  case Nil
  then show ?case by simp
next
  case (Cons e es)
  obtain u v where e: "e = (u, v)" by (cases e)
  show ?case
    by (auto simp: Cons.IH e adjacent_add_edge)
qed

lemma combinations2_members:
  "(x, y) \<in> set (combinations2 xs) \<Longrightarrow> x \<in> set xs \<and> y \<in> set xs"
  by (induction xs) auto

lemma combinations2_all_pairs:
  "x \<in> set xs \<Longrightarrow> y \<in> set xs \<Longrightarrow> x \<noteq> y \<Longrightarrow>
   (x, y) \<in> set (combinations2 xs) \<or> (y, x) \<in> set (combinations2 xs)"
  by (induction xs) auto

lemma combinations2_distinct:
  "distinct xs \<Longrightarrow> (x, y) \<in> set (combinations2 xs) \<Longrightarrow> x \<noteq> y"
  by (induction xs) (auto dest: combinations2_members)

lemma combinations2_short: "length xs \<le> 1 \<Longrightarrow> combinations2 xs = []"
  by (cases xs) auto

lemma adjacent_add_synset:
  "adjacent (add_synset g c) x y \<longleftrightarrow>
     adjacent g x y \<or> (x, y) \<in> set (combinations2 (filter is_single_word c))
       \<or> (y, x) \<in> set (combinations2 (filter is_single_word c))"
  by (auto simp: add_synset_def Let_def adjacent_add_edges_from combinations2_short)

lemma adjacent_empty: "\<not> adjacent [] x y"
  by (simp add: adjacent_def neighbors_def)

lemma adjacent_foldl_add_synset:
  "adjacent (foldl add_synset g cs) x y \<longleftrightarrow>
     adjacent g x y \<or>
     (\<exists>c\<in>set cs. (x, y) \<in> set (combinations2 (filter is_single_word c))
       \<or> (y, x) \<in> set (combinations2 (filter is_single_word c)))"
  by (induction cs arbitrary: g) (auto simp: adjacent_add_synset)

lemma adjacent_syn_graph:
  "adjacent (syn_graph cs) x y \<longleftrightarrow>
     (\<exists>c\<in>set cs. (x, y) \<in> set (combinations2 (filter is_single_word c))
       \<or> (y, x) \<in> set (combinations2 (filter is_single_word c)))"
  by (simp add: syn_graph_def adjacent_foldl_add_synset adjacent_empty)

lemma wf_add_node: "wf_graph g \<Longrightarrow> wf_graph (add_node g u)"
  by (auto simp: wf_graph_def add_node_def)

lemma wf_set_adj: "wf_graph g \<Longrightarrow> wf_graph (set_adj g u v)"
  unfolding wf_graph_def map_fst_set_adj
  by (auto simp: set_adj_def list_all_iff split: if_splits)

lemma wf_add_edge: "wf_graph g \<Longrightarrow> wf_graph (add_edge g e)"
  by (cases e) (simp add: add_edge_def wf_add_node wf_set_adj)

lemma wf_add_edges_from: "wf_graph g \<Longrightarrow> wf_graph (add_edges_from g es)"
  unfolding add_edges_from_def
  by (induction es arbitrary: g) (simp_all add: wf_add_edge)

lemma wf_add_synset: "wf_graph g \<Longrightarrow> wf_graph (add_synset g c)"
  by (simp add: add_synset_def Let_def wf_add_edges_from)

lemma wf_foldl_add_synset: "wf_graph g \<Longrightarrow> wf_graph (foldl add_synset g cs)"
  by (induction cs arbitrary: g) (simp_all add: wf_add_synset)

lemma wf_syn_graph: "wf_graph (syn_graph cs)"
proof -
  have "wf_graph []"
    by (simp add: wf_graph_def)
  then show ?thesis
    unfolding syn_graph_def by (rule wf_foldl_add_synset)
qed

lemma edges_seen_fst: "(x, y) \<in> set (edges_seen seen g) \<Longrightarrow> x \<in> fst ` set g \<and> y \<notin> set seen"
  by (induction seen g rule: edges_seen.induct) (auto simp: image_iff)

lemma distinct_edges_seen: "wf_graph g \<Longrightarrow> distinct (edges_seen seen g)"
proof (induction seen g rule: edges_seen.induct)
  case (1 seen)
  then show ?case by simp
next
  case (2 seen n nbrs rest)
  from "2.prems" have wf: "wf_graph rest" and n: "n \<notin> fst ` set rest" and d: "distinct nbrs"
    by (auto simp: wf_graph_def)
  have "distinct (map (Pair n) (filter (\<lambda>nbr. nbr \<notin> set seen) nbrs))"
    using d by (simp add: distinct_map inj_on_def)
  moreover have "set (map (Pair n) (filter (\<lambda>nbr. nbr \<notin> set seen) nbrs)) \<inter> set (edges_seen (n # seen) rest) = {}"
    using n by (auto dest: edges_seen_fst)
  ultimately show ?case
    using "2.IH"[OF wf] by simp
qed

lemma distinct_edges: "wf_graph g \<Longrightarrow> distinct (edges g)"
  by (simp add: edges_def distinct_edges_seen)

lemma edges_seen_one_way:
  "distinct (map fst g) \<Longrightarrow> (x, y) \<in> set (edges_seen seen g) \<Longrightarrow>
   (y, x) \<in> set (edges_seen seen g) \<Longrightarrow> x = y"
proof (induction seen g rule: edges_seen.induct)
  case (1 seen)
  then show ?case by simp
next
  case (2 seen n nbrs rest)
  then show ?case
    by (auto dest: edges_seen_fst)
qed

lemma edges_seen_adjacent:
  "distinct (map fst g) \<Longrightarrow> (x, y) \<in> set (edges_seen seen g) \<Longrightarrow> adjacent g x y"
proof (induction seen g rule: edges_seen.induct)
  case (1 seen)
  then show ?case by simp
next
  case (2 seen n nbrs rest)
  then show ?case
    by (auto simp: adjacent_def neighbors_def dest: edges_seen_fst)
qed

lemma edges_seen_cover:
  "map_of g x = Some ns \<Longrightarrow> y \<in> set ns \<Longrightarrow> map_of g y = Some ms \<Longrightarrow> x \<in> set ms \<Longrightarrow>
   x \<notin> set seen \<Longrightarrow> y \<notin> set seen \<Longrightarrow>
   (x, y) \<in> set (edges_seen seen g) \<or> (y, x) \<in> set (edges_seen seen g)"
proof (induction seen g rule: edges_seen.induct)
  case (1 seen)
  then show ?case by simp
next
  case (2 seen n nbrs rest)
  show ?case
  proof (cases "x = n \<or> y = n")
    case True
    then show ?thesis
      using "2.prems" by auto
  next
    case False
    then have "(x, y) \<in> set (edges_seen (n # seen) rest) \<or> (y, x) \<in> set (edges_seen (n # seen) rest)"
      using "2.prems" by (intro "2.IH") auto
    then show ?thesis by auto
  qed
qed

lemma edges_cover:
  "adjacent g x y \<Longrightarrow> adjacent g y x \<Longrightarrow> (x, y) \<in> set (edges g) \<or> (y, x) \<in> set (edges g)"
proof -
  assume "adjacent g x y" "adjacent g y x"
  then obtain ns ms where "map_of g x = Some ns" "y \<in> set ns" "map_of g y = Some ms" "x \<in> set ms"
    unfolding adjacent_def neighbors_def by (auto split: option.splits)
  then show ?thesis
    unfolding edges_def by (rule edges_seen_cover) simp_all
qed

lemma adjacent_syn_graph_sym: "adjacent (syn_graph cs) x y \<longleftrightarrow> adjacent (syn_graph cs) y x"
  by (auto simp: adjacent_syn_graph)

lemma edges_syn_graph_adjacent:
  "(x, y) \<in> set (edges (syn_graph cs)) \<or> (y, x) \<in> set (edges (syn_graph cs))
     \<longleftrightarrow> adjacent (syn_graph cs) x y"
proof
  assume "(x, y) \<in> set (edges (syn_graph cs)) \<or> (y, x) \<in> set (edges (syn_graph cs))"
  then have "adjacent (syn_graph cs) x y \<or> adjacent (syn_graph cs) y x"
    using wf_syn_graph[of cs] unfolding edges_def wf_graph_def
    by (auto dest: edges_seen_adjacent)
  then show "adjacent (syn_graph cs) x y"
    using adjacent_syn_graph_sym by blast
next
  assume "adjacent (syn_graph cs) x y"
  then show "(x, y) \<in> set (edges (syn_graph cs)) \<or> (y, x) \<in> set (edges (syn_graph cs))"
    using adjacent_syn_graph_sym edges_cover by blast
qed

lemma add_synset_short: "length (filter is_single_word c) < 2 \<Longrightarrow> add_synset g c = g"
  by (simp add: add_synset_def Let_def)

lemma syn_graph_clique:
  "c \<in> set cs \<Longrightarrow> x \<in> set c \<Longrightarrow> y \<in> set c \<Longrightarrow> is_single_word x \<Longrightarrow> is_single_word y \<Longrightarrow>
   x \<noteq> y \<Longrightarrow> adjacent (syn_graph cs) x y"
  unfolding adjacent_syn_graph
  using combinations2_all_pairs[of x "filter is_single_word c" y] by auto

lemma syn_graph_only_clusters:
  "adjacent (syn_graph cs) x y \<Longrightarrow>
   (\<exists>c\<in>set cs. x \<in> set c \<and> y \<in> set c) \<and> is_single_word x \<and> is_single_word y"
  unfolding adjacent_syn_graph
  by (auto dest!: combinations2_members)

lemma syn_graph_no_self_loop:
  "list_all (\<lambda>c. distinct (filter is_single_word c)) cs \<Longrightarrow> \<not> adjacent (syn_graph cs) x x"
  unfolding adjacent_syn_graph list_all_iff
  by (auto dest: combinations2_distinct)

lemma edges_syn_graph_one_way:
  "x \<noteq> y \<Longrightarrow> (x, y) \<in> set (edges (syn_graph cs)) \<Longrightarrow> (y, x) \<notin> set (edges (syn_graph cs))"
  using wf_syn_graph[of cs] edges_seen_one_way[of "syn_graph cs" x y "[]"]
  unfolding wf_graph_def edges_def by blast

lemma nodes_add_edge: "set (nodes (add_edge g (u, v))) = insert u (insert v (set (nodes g)))"
  by (auto simp: nodes_def add_edge_def keys_set_adj keys_add_node)

lemma nodes_add_edges_from:
  "set (nodes (add_edges_from g es)) = set (nodes g) \<union> fst ` set es \<union> snd ` set es"
  unfolding add_edges_from_def
proof (induction es arbitrary: g)
  case Nil
  then show ?case by simp
next
  case (Cons e es)
  obtain u v where e: "e = (u, v)" by (cases e)
  show ?case
    by (auto simp: Cons.IH e nodes_add_edge)
qed

lemma nodes_add_synset:
  "n \<in> set (nodes (add_synset g c)) \<Longrightarrow> n \<in> set (nodes g) \<or> n \<in> set c \<and> is_single_word n"
  by (auto simp: add_synset_def Let_def nodes_add_edges_from dest: combinations2_members
      split: if_splits)

lemma nodes_foldl_add_synset:
  "n \<in> set (nodes (foldl add_synset g cs)) \<Longrightarrow>
   n \<in> set (nodes g) \<or> (\<exists>c\<in>set cs. n \<in> set c) \<and> is_single_word n"
proof (induction cs arbitrary: g)
  case Nil
  then show ?case by simp
next
  case (Cons c cs)
  from Cons.IH[of "add_synset g c"] Cons.prems
  have "n \<in> set (nodes (add_synset g c)) \<or> (\<exists>c\<in>set cs. n \<in> set c) \<and> is_single_word n"
    by simp
  then show ?case
    using nodes_add_synset[of n g c] by auto
qed

lemma nodes_syn_graph:
  "n \<in> set (nodes (syn_graph cs)) \<Longrightarrow> (\<exists>c\<in>set cs. n \<in> set c) \<and> is_single_word n"
  using nodes_foldl_add_synset[of n "[]" cs] by (simp add: syn_graph_def nodes_def)

lemma get_syngraph_wordset_lookup:
  "map_of (get_syngraph_wordset pos_synsets) p = map_option syn_graph (map_of pos_synsets p)"
  by (induction pos_synsets) (auto simp: get_syngraph_wordset_def)

lemma change_graph:
  "syn_graph [[''change'', ''alter'', ''modify''], [''change'', ''transform'']]
     = [(''change'', [''alter'', ''modify'', ''transform'']), (''alter'', [''change'', ''modify'']),
        (''modify'', [''change'', ''alter'']), (''transform'', [''change''])]"
  by (simp add: model_defs float_evals)

lemma change_alter_distance: "editdistance_eval ''change'' ''alter'' = 5"
  by code_simp

subsection \<open>Facts about the splitter\<close>

lemma split_edges_foldl:
  "weights p = Some w \<Longrightarrow> split_edges p tlen es st = Inr (foldl (split_step tlen w) st es)"
  by (induction es arbitrary: st) simp_all

lemma set_update_endpoints_Cons:
  "set_update s (endpoints ((x, y) # es)) = set_update (set_update s [x, y]) (endpoints es)"
  by (simp add: endpoints_def set_update_def)

lemma endpoints_Nil: "endpoints [] = []"
  by (simp add: endpoints_def)

lemma set_update_Nil: "set_update s [] = s"
  by (simp add: set_update_def)

lemma split_rest_to_test:
  "\<not> goes_to_train tlen w st \<Longrightarrow>
   foldl (split_step tlen w) st es =
     st\<lparr>test_edges := test_edges st @ es,
        test_words := set_update (test_words st) (endpoints es)\<rparr>"
proof (induction es arbitrary: st)
  case Nil
  then show ?case by (simp add: endpoints_Nil set_update_Nil)
next
  case (Cons e es)
  obtain x y where e: "e = (x, y)" by (cases e)
  let ?st = "st\<lparr>test_edges := test_edges st @ [(x, y)],
                  test_words := set_update (test_words st) [x, y]\<rparr>"
  have step: "split_step tlen w st (x, y) = ?st"
    using Cons.prems by (simp add: split_step_def)
  have "\<not> goes_to_train tlen w ?st"
    using Cons.prems by (simp add: goes_to_train_def)
  from Cons.IH[OF this] show ?case
    by (simp add: step e set_update_endpoints_Cons)
qed

lemma split_prefix:
  "\<exists>j\<le>length es.
     train_edges (foldl (split_step tlen w) st es) = train_edges st @ take j es \<and>
     test_edges (foldl (split_step tlen w) st es) = test_edges st @ drop j es \<and>
     train_words (foldl (split_step tlen w) st es) = set_update (train_words st) (endpoints (take j es)) \<and>
     test_words (foldl (split_step tlen w) st es) = set_update (test_words st) (endpoints (drop j es)) \<and>
     (\<forall>i<j. of_nat (length (set_update (train_words st) (endpoints (take i es)))) < threshold_of tlen w) \<and>
     (j < length es \<longrightarrow>
        \<not> of_nat (length (set_update (train_words st) (endpoints (take j es)))) < threshold_of tlen w)"
proof (induction es arbitrary: st)
  case Nil
  then show ?case by (simp add: endpoints_Nil set_update_Nil)
next
  case (Cons e es)
  obtain x y where e: "e = (x, y)" by (cases e)
  show ?case
  proof (cases "goes_to_train tlen w st")
    case True
    let ?st = "st\<lparr>train_edges := train_edges st @ [(x, y)],
                    train_words := set_update (train_words st) [x, y]\<rparr>"
    have step: "split_step tlen w st (x, y) = ?st"
      using True by (simp add: split_step_def)
    from Cons.IH[of ?st] obtain j where j: "j \<le> length es"
      "train_edges (foldl (split_step tlen w) ?st es) = train_edges ?st @ take j es"
      "test_edges (foldl (split_step tlen w) ?st es) = test_edges ?st @ drop j es"
      "train_words (foldl (split_step tlen w) ?st es) = set_update (train_words ?st) (endpoints (take j es))"
      "test_words (foldl (split_step tlen w) ?st es) = set_update (test_words ?st) (endpoints (drop j es))"
      "\<forall>i<j. of_nat (length (set_update (train_words ?st) (endpoints (take i es)))) < threshold_of tlen w"
      "j < length es \<longrightarrow>
        \<not> of_nat (length (set_update (train_words ?st) (endpoints (take j es)))) < threshold_of tlen w"
      by blast
    have low: "of_nat (length (set_update (train_words st) (endpoints (take i (e # es))))) < threshold_of tlen w"
      if "i < Suc j" for i
    proof (cases i)
      case 0
      then show ?thesis using True by (simp add: goes_to_train_def endpoints_Nil set_update_Nil)
    next
      case (Suc i')
      then have "i' < j" using that by simp
      with j(6) show ?thesis
        by (simp add: Suc e set_update_endpoints_Cons)
    qed
    show ?thesis
      apply (rule exI[of _ "Suc j"])
      using j(1-5,7) low
      by (simp add: step e set_update_endpoints_Cons)
  next
    case False
    show ?thesis
      apply (rule exI[of _ 0])
      using False split_rest_to_test[OF False, of "e # es"]
      by (simp add: endpoints_Nil set_update_Nil goes_to_train_def del: foldl_Cons)
  qed
qed

lemma split_graph_prefix:
  assumes "weights p = Some m"
  shows "\<exists>st j. split_graph p g r = Inr st \<and> j \<le> length (edges g) \<and>
           train_edges st = take j (edges g) \<and> test_edges st = drop j (edges g) \<and>
           train_words st = words_of (take j (edges g)) \<and>
           test_words st = words_of (drop j (edges g)) \<and>
           (\<forall>i<j. of_nat (length (words_of (take i (edges g)))) < code_threshold g r m) \<and>
           (j < length (edges g) \<longrightarrow>
              \<not> of_nat (length (words_of (take j (edges g)))) < code_threshold g r m)"
proof -
  let ?run = "foldl (split_step (train_len_of g r) m) split_init (edges g)"
  have run: "split_graph p g r = Inr ?run"
    by (simp add: split_graph_def split_edges_foldl[OF assms])
  from split_prefix[of "edges g" "train_len_of g r" m split_init]
  obtain j where "j \<le> length (edges g)"
    "train_edges ?run = take j (edges g)" "test_edges ?run = drop j (edges g)"
    "train_words ?run = words_of (take j (edges g))"
    "test_words ?run = words_of (drop j (edges g))"
    "\<forall>i<j. of_nat (length (words_of (take i (edges g)))) < code_threshold g r m"
    "j < length (edges g) \<longrightarrow>
       \<not> of_nat (length (words_of (take j (edges g)))) < code_threshold g r m"
    unfolding words_of_def code_threshold_def by (auto simp: split_init_def)
  with run show ?thesis
    by blast
qed

subsection \<open>Facts about the sampler\<close>

text \<open>
  Every record of a run comes from one pass of the loop body, for an edge of the train or
  the test edges of the graph of its part of speech: \<open>record_origin\<close>.
\<close>

lemma choices_members: "choices rng i population k = Inr (xs, i') \<Longrightarrow> set xs \<subseteq> set population"
  by (auto simp: choices_def split: if_splits)

lemma set_intersection_iff: "x \<in> set (set_intersection a b) \<longleftrightarrow> x \<in> set a \<and> x \<in> set b"
  by (simp add: set_intersection_def)

lemma set_difference_iff: "x \<in> set (set_difference a b) \<longleftrightarrow> x \<in> set a \<and> x \<notin> set b"
  by (simp add: set_difference_def)

lemma intersection_iff:
  "x \<in> set (intersection st) \<longleftrightarrow> x \<in> set (train_words st) \<and> x \<in> set (test_words st)"
  by (simp add: intersection_def set_intersection_iff)

lemma neg_words_of_iff:
  "w \<in> set (neg_words_of st sp (pos_words_of w1 nbrs)) \<longleftrightarrow>
     w \<noteq> w1 \<and> w \<notin> set nbrs \<and>
     (if sp = ''train'' then w \<in> set (train_words st) \<and> w \<notin> set (test_words st)
      else w \<in> set (test_words st) \<and> w \<notin> set (train_words st))"
  by (auto simp: neg_words_of_def pos_words_of_def set_difference_iff train_sampling_def
      test_sampling_def intersection_iff)

lemma emit_pair_records:
  assumes "emit_pair graph p st k rng sp (w1, w2) i = Inr (recs, i')" and "r \<in> set recs"
  shows "word1 r = w1 \<and> pos r = p \<and> split r = sp \<and> \<not> editdistance_eval w1 w2 < 2 \<and>
         w1 \<notin> set (intersection st) \<and> w2 \<notin> set (intersection st) \<and>
         (\<exists>nbrs. neighbors graph w1 = Some nbrs \<and>
            (synonym r = 1 \<and> word2 r = w2 \<or>
             synonym r = 0 \<and> word2 r \<in> set (neg_words_of st sp (pos_words_of w1 nbrs))))"
proof -
  from assms have far: "\<not> editdistance_eval w1 w2 < 2"
    and clean: "w1 \<notin> set (intersection st)" "w2 \<notin> set (intersection st)"
    by (auto simp: emit_pair_def split: if_splits)
  with assms obtain nbrs where nbrs: "neighbors graph w1 = Some nbrs"
    by (cases "neighbors graph w1") (auto simp: emit_pair_def)
  from assms(1) far clean nbrs obtain neg_sampling where
    drawn: "choices rng i (neg_words_of st sp (pos_words_of w1 nbrs)) k = Inr (neg_sampling, i')"
    and recs: "recs = \<lparr>word1 = w1, word2 = w2, synonym = 1, pos = p, split = sp\<rparr>
        # map (\<lambda>w3. \<lparr>word1 = w1, word2 = w3, synonym = 0, pos = p, split = sp\<rparr>) neg_sampling"
    by (auto simp: emit_pair_def Let_def split: sum.splits)
  from choices_members[OF drawn] recs assms(2) far clean nbrs show ?thesis
    by auto
qed

lemma emit_pairs_records:
  "r \<in> set (fst (emit_pairs graph p st k rng sp es i)) \<Longrightarrow>
   \<exists>e\<in>set es. \<exists>j recs j'. emit_pair graph p st k rng sp e j = Inr (recs, j') \<and> r \<in> set recs"
proof (induction es arbitrary: i)
  case Nil
  then show ?case by simp
next
  case (Cons e es)
  show ?case
  proof (cases "emit_pair graph p st k rng sp e i")
    case (Inl err)
    with Cons.prems show ?thesis by simp
  next
    case (Inr a)
    obtain recs i' where a: "a = (recs, i')" by (cases a)
    from Cons.prems Inr a have "r \<in> set recs \<or> r \<in> set (fst (emit_pairs graph p st k rng sp es i'))"
      by (auto split: prod.splits)
    then show ?thesis
    proof
      assume "r \<in> set recs"
      with Inr a show ?thesis by auto
    next
      assume "r \<in> set (fst (emit_pairs graph p st k rng sp es i'))"
      from Cons.IH[OF this] show ?thesis by auto
    qed
  qed
qed

lemma and_then_records:
  "r \<in> set (fst (and_then run f)) \<Longrightarrow> r \<in> set (fst run) \<or> (\<exists>i. r \<in> set (fst (f i)))"
proof -
  assume r: "r \<in> set (fst (and_then run f))"
  obtain recs fault i where run: "run = (recs, fault, i)"
    by (cases run)
  show ?thesis
  proof (cases fault)
    case None
    obtain later fault' j where f: "f i = (later, fault', j)"
      by (cases "f i")
    from r have "r \<in> set recs \<or> r \<in> set later"
      by (simp add: and_then_def run None f)
    then have "r \<in> set (fst run) \<or> r \<in> set (fst (f i))"
      by (simp add: run f)
    then show ?thesis by blast
  next
    case (Some err)
    with r show ?thesis by (simp add: and_then_def run)
  qed
qed

lemma dataset_of_graph_records:
  assumes "r \<in> set (fst (dataset_of_graph p g ratio k rng i))"
  shows "\<exists>st sp e j recs j'. split_graph p g ratio = Inr st \<and>
           (sp = ''train'' \<and> e \<in> set (train_edges st) \<or> sp = ''test'' \<and> e \<in> set (test_edges st)) \<and>
           emit_pair g p st k rng sp e j = Inr (recs, j') \<and> r \<in> set recs"
proof (cases "split_graph p g ratio")
  case (Inl err)
  with assms show ?thesis by (simp add: dataset_of_graph_def)
next
  case (Inr st)
  with assms have "r \<in> set (fst (and_then
      (emit_pairs g p st k rng ''train'' (train_edges st) i)
      (emit_pairs g p st k rng ''test'' (test_edges st))))"
    by (simp add: dataset_of_graph_def)
  from and_then_records[OF this]
  have "r \<in> set (fst (emit_pairs g p st k rng ''train'' (train_edges st) i)) \<or>
      (\<exists>j. r \<in> set (fst (emit_pairs g p st k rng ''test'' (test_edges st) j)))" .
  then show ?thesis
    using Inr by (blast dest: emit_pairs_records)
qed

lemma dataset_from_records:
  "r \<in> set (fst (dataset_from sgs ratio k rng i)) \<Longrightarrow>
   \<exists>p g j. (p, g) \<in> set sgs \<and> r \<in> set (fst (dataset_of_graph p g ratio k rng j))"
proof (induction sgs arbitrary: i)
  case Nil
  then show ?case by simp
next
  case (Cons a sgs)
  obtain p g where a: "a = (p, g)" by (cases a)
  from Cons.prems have "r \<in> set (fst (and_then (dataset_of_graph p g ratio k rng i)
      (dataset_from sgs ratio k rng)))"
    by (simp add: a)
  from and_then_records[OF this]
  show ?case
  proof
    assume "r \<in> set (fst (dataset_of_graph p g ratio k rng i))"
    then show ?thesis
      unfolding a by (intro exI[of _ p] exI[of _ g] exI[of _ i]) simp
  next
    assume "\<exists>j. r \<in> set (fst (dataset_from sgs ratio k rng j))"
    then obtain j where "r \<in> set (fst (dataset_from sgs ratio k rng j))" ..
    from Cons.IH[OF this] obtain p' g' j' where "(p', g') \<in> set sgs"
      "r \<in> set (fst (dataset_of_graph p' g' ratio k rng j'))"
      by blast
    then show ?thesis
      by (intro exI[of _ p'] exI[of _ g'] exI[of _ j']) simp
  qed
qed

lemma record_origin:
  assumes "r \<in> set (fst (create_dataset sgs ratio k rng))"
  shows "\<exists>g st w2 nbrs. (pos r, g) \<in> set sgs \<and> split_graph (pos r) g ratio = Inr st \<and>
           (split r = ''train'' \<and> (word1 r, w2) \<in> set (train_edges st) \<or>
            split r = ''test'' \<and> (word1 r, w2) \<in> set (test_edges st)) \<and>
           \<not> editdistance_eval (word1 r) w2 < 2 \<and>
           word1 r \<notin> set (intersection st) \<and> w2 \<notin> set (intersection st) \<and>
           neighbors g (word1 r) = Some nbrs \<and>
           (synonym r = 1 \<and> word2 r = w2 \<or>
            synonym r = 0 \<and>
              word2 r \<in> set (neg_words_of st (split r) (pos_words_of (word1 r) nbrs)))"
proof -
  from assms have "r \<in> set (fst (dataset_from sgs ratio k rng 0))"
    by (simp add: create_dataset_def split: prod.splits)
  from dataset_from_records[OF this] obtain p g j where
    g: "(p, g) \<in> set sgs" and "r \<in> set (fst (dataset_of_graph p g ratio k rng j))"
    by blast
  from dataset_of_graph_records[OF this(2)] obtain st sp e j' recs j'' where
    st: "split_graph p g ratio = Inr st"
    and e: "sp = ''train'' \<and> e \<in> set (train_edges st) \<or> sp = ''test'' \<and> e \<in> set (test_edges st)"
    and emit: "emit_pair g p st k rng sp e j' = Inr (recs, j'')" and r: "r \<in> set recs"
    by blast
  obtain w1 w2 where w: "e = (w1, w2)" by (cases e)
  from emit_pair_records[OF emit[unfolded w] r] obtain nbrs where
    eqs: "word1 r = w1" "pos r = p" "split r = sp"
    and props: "\<not> editdistance_eval w1 w2 < 2" "w1 \<notin> set (intersection st)"
      "w2 \<notin> set (intersection st)" "neighbors g w1 = Some nbrs"
      "synonym r = 1 \<and> word2 r = w2 \<or>
       synonym r = 0 \<and> word2 r \<in> set (neg_words_of st sp (pos_words_of w1 nbrs))"
    by blast
  from e w have "sp = ''train'' \<and> (w1, w2) \<in> set (train_edges st) \<or>
      sp = ''test'' \<and> (w1, w2) \<in> set (test_edges st)"
    by simp
  with g st props show ?thesis
    unfolding eqs by (intro exI[of _ g] exI[of _ st] exI[of _ w2] exI[of _ nbrs]) simp
qed

lemma emit_pairs_skip_near:
  "emit_pairs g p st k rng sp es i
   = emit_pairs g p st k rng sp (filter (\<lambda>(w1, w2). \<not> editdistance_eval w1 w2 < 2) es) i"
proof (induction es arbitrary: i)
  case Nil
  then show ?case by simp
next
  case (Cons e es)
  obtain w1 w2 where e: "e = (w1, w2)" by (cases e)
  show ?case
  proof (cases "editdistance_eval w1 w2 < 2")
    case True
    then have "emit_pair g p st k rng sp (w1, w2) i = Inr ([], i)"
      by (simp add: emit_pair_def)
    then have "emit_pairs g p st k rng sp (e # es) i = emit_pairs g p st k rng sp es i"
      by (simp add: e split: prod.splits)
    with True Cons.IH[of i] show ?thesis
      by (simp add: e)
  next
    case False
    with Cons.IH show ?thesis
      by (simp add: e split: sum.splits prod.splits)
  qed
qed

lemma emit_pair_empty_pool:
  "\<not> editdistance_eval w1 w2 < 2 \<Longrightarrow> w1 \<notin> set (intersection st) \<Longrightarrow>
   w2 \<notin> set (intersection st) \<Longrightarrow> neighbors g w1 = Some nbrs \<Longrightarrow>
   neg_words_of st sp (pos_words_of w1 nbrs) = [] \<Longrightarrow> 0 < k \<Longrightarrow>
   emit_pair g p st k rng sp (w1, w2) i = Inl IndexError"
  by (simp add: emit_pair_def choices_def)

text \<open>The run used as the concrete instance of the properties of the records.\<close>

lemma car_run:
  "fst (create_dataset [(''noun'', syn_graph [[''car'', ''auto''], [''cars'', ''cart'']])] 1 1 (\<lambda>i. 0)) = [\<lparr>word1 = ''car'', word2 = ''auto'', synonym = 1, pos = ''noun'', split = ''train''\<rparr>, \<lparr>word1 = ''car'', word2 = ''cars'', synonym = 0, pos = ''noun'', split = ''train''\<rparr>]"
  by (simp add: model_defs float_evals)

text \<open>
  The run of the example input: both splits yield records, the edges (ccc, ddd) and
  (ddd, eee) are dropped because ddd is in the intersection, and no negative is ddd.
\<close>

lemma mixed_split: "split_graph ''noun'' (syn_graph mixed_synsets) (1 / 2) = Inr mixed_state"
  by (simp add: model_defs float_evals)

lemma mixed_run:
  "create_dataset [(''noun'', syn_graph mixed_synsets)] (1 / 2) 1 (\<lambda>i. 0)
   = ([\<lparr>word1 = ''aaa'', word2 = ''bbb'', synonym = 1, pos = ''noun'', split = ''train''\<rparr>,
       \<lparr>word1 = ''aaa'', word2 = ''ccc'', synonym = 0, pos = ''noun'', split = ''train''\<rparr>,
       \<lparr>word1 = ''eee'', word2 = ''fff'', synonym = 1, pos = ''noun'', split = ''test''\<rparr>,
       \<lparr>word1 = ''eee'', word2 = ''ggg'', synonym = 0, pos = ''noun'', split = ''test''\<rparr>,
       \<lparr>word1 = ''ggg'', word2 = ''hhh'', synonym = 1, pos = ''noun'', split = ''test''\<rparr>,
       \<lparr>word1 = ''ggg'', word2 = ''eee'', synonym = 0, pos = ''noun'', split = ''test''\<rparr>],
      None)"
  by (simp add: model_defs float_evals)

lemma mixed_graph_unique:
  "(p, g) \<in> set [(''noun'', syn_graph mixed_synsets)] \<Longrightarrow>
   split_graph p g (1 / 2) = Inr st \<Longrightarrow> st = mixed_state"
  by (simp add: mixed_split)

subsection \<open>The graph builder\<close>

text \<open>
  Claim C5. The graph that \<^verbatim>\<open>get_syngraph_wordset\<close> returns for a part of speech is
  \<open>syn_graph cs\<close> for its synsets \<open>cs\<close>. In that graph two different forms of one synset
  that contain neither a hyphen nor an underscore are adjacent; adjacent words are forms
  of one synset and contain no separator, and so does every node; a synset with fewer
  than two such forms leaves the graph as it is; adjacency is symmetric; no node and no
  neighbour is listed twice, the edge list has no repetition and never holds an edge in
  both directions, and it holds exactly the adjacent pairs; for the synset a, b, c the
  edges are (a, b), (a, c), (b, c). A sense cluster is a set of word forms: the list of
  its forms names no form twice, and then no word is adjacent to itself.
\<close>

theorem graph_builder_cliques:
  "map_of (get_syngraph_wordset pos_synsets) p = map_option syn_graph (map_of pos_synsets p) \<and>
   (c \<in> set cs \<and> x \<in> set c \<and> y \<in> set c \<and> is_single_word x \<and> is_single_word y \<and> x \<noteq> y
      \<longrightarrow> adjacent (syn_graph cs) x y) \<and>
   (adjacent (syn_graph cs) x y
      \<longrightarrow> (\<exists>c\<in>set cs. x \<in> set c \<and> y \<in> set c) \<and> is_single_word x \<and> is_single_word y) \<and>
   (n \<in> set (nodes (syn_graph cs)) \<longrightarrow> (\<exists>c\<in>set cs. n \<in> set c) \<and> is_single_word n) \<and>
   (length (filter is_single_word c') < 2 \<longrightarrow> add_synset g c' = g) \<and>
   (adjacent (syn_graph cs) x y \<longleftrightarrow> adjacent (syn_graph cs) y x) \<and>
   wf_graph (syn_graph cs) \<and>
   distinct (edges (syn_graph cs)) \<and>
   (x \<noteq> y \<and> (x, y) \<in> set (edges (syn_graph cs)) \<longrightarrow> (y, x) \<notin> set (edges (syn_graph cs))) \<and>
   ((x, y) \<in> set (edges (syn_graph cs)) \<or> (y, x) \<in> set (edges (syn_graph cs))
      \<longleftrightarrow> adjacent (syn_graph cs) x y) \<and>
   (list_all (\<lambda>c. distinct (filter is_single_word c)) cs \<longrightarrow> \<not> adjacent (syn_graph cs) x x) \<and>
   edges (syn_graph [[''a'', ''b'', ''c'']]) = [(''a'', ''b''), (''a'', ''c''), (''b'', ''c'')]"
proof -
  have example:
    "edges (syn_graph [[''a'', ''b'', ''c'']]) = [(''a'', ''b''), (''a'', ''c''), (''b'', ''c'')]"
    by (simp add: model_defs float_evals)
  show ?thesis
    using syn_graph_clique[of c cs x y] syn_graph_only_clusters[of cs x y]
      add_synset_short[of c' g] adjacent_syn_graph_sym[of cs x y] wf_syn_graph[of cs]
      distinct_edges[OF wf_syn_graph[of cs]] edges_syn_graph_one_way[of x y cs]
      edges_syn_graph_adjacent[of x y cs] syn_graph_no_self_loop[of cs x] example
      get_syngraph_wordset_lookup[of pos_synsets p] nodes_syn_graph[of n cs]
    by blast
qed

theorem graph_builder_cliques_witness:
  "[''a'', ''b-c'', ''b''] \<in> set [[''a'', ''b-c'', ''b''], [''d'', ''e_f'']] \<and>
   ''a'' \<in> set [''a'', ''b-c'', ''b''] \<and> ''b'' \<in> set [''a'', ''b-c'', ''b''] \<and>
   is_single_word ''a'' \<and> is_single_word ''b'' \<and> ''a'' \<noteq> ''b'' \<and>
   adjacent (syn_graph [[''a'', ''b-c'', ''b''], [''d'', ''e_f'']]) ''a'' ''b'' \<and>
   adjacent (syn_graph [[''a'', ''b-c'', ''b''], [''d'', ''e_f'']]) ''b'' ''a'' \<and>
   ''a'' \<in> set (nodes (syn_graph [[''a'', ''b-c'', ''b''], [''d'', ''e_f'']])) \<and>
   ''d'' \<notin> set (nodes (syn_graph [[''a'', ''b-c'', ''b''], [''d'', ''e_f'']])) \<and>
   length (filter is_single_word [''d'', ''e_f'']) < 2 \<and>
   add_synset [(''a'', [''b'']), (''b'', [''a''])] [''d'', ''e_f'']
     = [(''a'', [''b'']), (''b'', [''a''])] \<and>
   wf_graph (syn_graph [[''a'', ''b-c'', ''b''], [''d'', ''e_f'']]) \<and>
   distinct (edges (syn_graph [[''a'', ''b-c'', ''b''], [''d'', ''e_f'']])) \<and>
   (''a'', ''b'') \<in> set (edges (syn_graph [[''a'', ''b-c'', ''b''], [''d'', ''e_f'']])) \<and>
   (''b'', ''a'') \<notin> set (edges (syn_graph [[''a'', ''b-c'', ''b''], [''d'', ''e_f'']])) \<and>
   list_all (\<lambda>c. distinct (filter is_single_word c)) [[''a'', ''b-c'', ''b''], [''d'', ''e_f'']] \<and>
   \<not> adjacent (syn_graph [[''a'', ''b-c'', ''b''], [''d'', ''e_f'']]) ''a'' ''a''"
proof -
  have e: "(''a'', ''b'') \<in> set (edges (syn_graph [[''a'', ''b-c'', ''b''], [''d'', ''e_f'']]))"
    by (simp add: model_defs float_evals)
  have n: "nodes (syn_graph [[''a'', ''b-c'', ''b''], [''d'', ''e_f'']]) = [''a'', ''b'']"
    by (simp add: model_defs float_evals)
  show ?thesis
    unfolding n
    using e graph_builder_cliques[where c = "[''a'', ''b-c'', ''b'']"
        and cs = "[[''a'', ''b-c'', ''b''], [''d'', ''e_f'']]" and x = "''a''" and y = "''b''"
        and c' = "[''d'', ''e_f'']" and g = "[(''a'', [''b'']), (''b'', [''a''])]"
        and pos_synsets = "[(''noun'', [[''a'', ''b-c'', ''b''], [''d'', ''e_f'']])]"
        and p = "''noun''" and n = "''a''"]
    by (auto simp: is_single_word_def)
qed

text \<open>
  A list that names a form twice is not a set of forms. \<^verbatim>\<open>combinations\<close> pairs positions,
  not values, so for such a list the builder pairs the form with itself.
\<close>

lemma repeated_form_self_loop:
  "edges (syn_graph [[''a'', ''a'']]) = [(''a'', ''a'')] \<and>
   adjacent (syn_graph [[''a'', ''a'']]) ''a'' ''a''"
  by (simp add: model_defs adjacent_def)

subsection \<open>The end-to-end example\<close>

text \<open>
  Claim C2, as far as it holds. For the synsets change, alter, modify and change,
  transform the graph has the four vertices and the four edges of the claim. With train
  fraction 1 all four edges go to train for verbs (weight 1.15); for nouns and adjectives
  (weight 1) the threshold 4 is reached after three edges and (alter, modify) goes to
  test. In the verb split the negative pool of change, which is adjacent to every other
  word, is empty, and the pool of alter is transform alone: three of the four edges have
  no word to draw a negative from.
\<close>

theorem end_to_end_example:
  "nodes (syn_graph [[''change'', ''alter'', ''modify''], [''change'', ''transform'']])
     = [''change'', ''alter'', ''modify'', ''transform''] \<and>
   edges (syn_graph [[''change'', ''alter'', ''modify''], [''change'', ''transform'']])
     = [(''change'', ''alter''), (''change'', ''modify''), (''change'', ''transform''),
        (''alter'', ''modify'')] \<and>
   split_graph ''verb'' (syn_graph [[''change'', ''alter'', ''modify''], [''change'', ''transform'']]) 1
     = Inr \<lparr>train_words = [''change'', ''alter'', ''modify'', ''transform''], test_words = [],
            train_edges = [(''change'', ''alter''), (''change'', ''modify''),
                           (''change'', ''transform''), (''alter'', ''modify'')],
            test_edges = []\<rparr> \<and>
   split_graph ''noun'' (syn_graph [[''change'', ''alter'', ''modify''], [''change'', ''transform'']]) 1
     = Inr \<lparr>train_words = [''change'', ''alter'', ''modify'', ''transform''],
            test_words = [''alter'', ''modify''],
            train_edges = [(''change'', ''alter''), (''change'', ''modify''),
                           (''change'', ''transform'')],
            test_edges = [(''alter'', ''modify'')]\<rparr> \<and>
   split_graph ''adjective''
       (syn_graph [[''change'', ''alter'', ''modify''], [''change'', ''transform'']]) 1
     = split_graph ''noun''
         (syn_graph [[''change'', ''alter'', ''modify''], [''change'', ''transform'']]) 1 \<and>
   neighbors (syn_graph [[''change'', ''alter'', ''modify''], [''change'', ''transform'']]) ''change''
     = Some [''alter'', ''modify'', ''transform''] \<and>
   neighbors (syn_graph [[''change'', ''alter'', ''modify''], [''change'', ''transform'']]) ''alter''
     = Some [''change'', ''modify''] \<and>
   neg_words_of
       \<lparr>train_words = [''change'', ''alter'', ''modify'', ''transform''], test_words = [],
        train_edges = [(''change'', ''alter''), (''change'', ''modify''),
                       (''change'', ''transform''), (''alter'', ''modify'')],
        test_edges = []\<rparr>
       ''train'' (pos_words_of ''change'' [''alter'', ''modify'', ''transform'']) = [] \<and>
   neg_words_of
       \<lparr>train_words = [''change'', ''alter'', ''modify'', ''transform''], test_words = [],
        train_edges = [(''change'', ''alter''), (''change'', ''modify''),
                       (''change'', ''transform''), (''alter'', ''modify'')],
        test_edges = []\<rparr>
       ''train'' (pos_words_of ''alter'' [''change'', ''modify'']) = [''transform'']"
  unfolding change_graph by (simp add: model_defs float_evals)

text \<open>
  The claim as stated fails: the generator yields no record for this input, neither 4
  positive nor 4 negative ones. It stops with \<^verbatim>\<open>IndexError\<close> at the first edge (change, alter).
\<close>

theorem end_to_end_counterexample:
  "create_dataset
     [(''verb'', syn_graph [[''change'', ''alter'', ''modify''], [''change'', ''transform'']])]
     1 1 (\<lambda>i. 0) = ([], Some IndexError)"
  unfolding change_graph
  by (simp add: model_defs float_evals change_alter_distance del: editdistance_eval.simps)

subsection \<open>The threshold of the splitter\<close>

text \<open>
  Claim C3, as the code has it. The splitter returns for each of the three parts of speech
  that have a weight, when \<^verbatim>\<open>train_len\<close> is computed from finite doubles. It passes once over \<^verbatim>\<open>graph.edges\<close>, which lists the nodes in insertion
  order, each with those of its neighbours that are not nodes listed before. Its train
  edges are the first \<open>j\<close> of these edges and its test edges all the later ones, with
  their words. When edge number \<open>i\<close> is processed, \<^verbatim>\<open>train_words\<close> holds the words of the first
  \<open>min i j\<close> edges, and the edge goes to train exactly when their number is below
  \<^verbatim>\<open>train_len * m\<close>, where \<^verbatim>\<open>train_len\<close> is \<^verbatim>\<open>int(all_words_len * r)\<close> and both products are
  products of floats. The threshold is not \<open>r \<cdot> m \<cdot> |all_vertices|\<close>, and the order is not the
  order in which the edges were inserted.
\<close>

theorem split_threshold_rule:
  assumes "weights p = Some m" and "train_len_finite g r"
  shows "\<exists>st j. split_graph p g r = Inr st \<and>
           train_edges st = take j (edges g) \<and> test_edges st = drop j (edges g) \<and>
           train_words st = words_of (take j (edges g)) \<and>
           test_words st = words_of (drop j (edges g)) \<and>
           (\<forall>i<length (edges g).
              i < j \<longleftrightarrow>
              of_nat (length (words_of (take (min i j) (edges g)))) < code_threshold g r m)"
proof -
  from split_graph_prefix[OF assms(1), of g r]
  obtain st j where st: "split_graph p g r = Inr st" "j \<le> length (edges g)"
    "train_edges st = take j (edges g)" "test_edges st = drop j (edges g)"
    "train_words st = words_of (take j (edges g))"
    "test_words st = words_of (drop j (edges g))"
    and below: "\<forall>i<j. of_nat (length (words_of (take i (edges g)))) < code_threshold g r m"
    and reached: "j < length (edges g) \<longrightarrow>
       \<not> of_nat (length (words_of (take j (edges g)))) < code_threshold g r m"
    by blast
  have "i < j \<longleftrightarrow> of_nat (length (words_of (take (min i j) (edges g)))) < code_threshold g r m"
    if "i < length (edges g)" for i
  proof (cases "i < j")
    case True
    then show ?thesis using below by (simp add: min_def)
  next
    case False
    then have "j < length (edges g)" "min i j = j"
      using that by simp_all
    then show ?thesis using reached False by simp
  qed
  with st show ?thesis
    by blast
qed

theorem split_threshold_rule_witness:
  "weights ''noun'' = Some 1 \<and>
   train_len_finite (syn_graph [[''a'', ''b''], [''c'', ''d''], [''d'', ''e'']]) (1 / 2) \<and>
   (\<exists>st j. split_graph ''noun'' (syn_graph [[''a'', ''b''], [''c'', ''d''], [''d'', ''e'']]) (1 / 2)
              = Inr st \<and>
      train_edges st = take j (edges (syn_graph [[''a'', ''b''], [''c'', ''d''], [''d'', ''e'']])) \<and>
      test_edges st = drop j (edges (syn_graph [[''a'', ''b''], [''c'', ''d''], [''d'', ''e'']])) \<and>
      train_words st
        = words_of (take j (edges (syn_graph [[''a'', ''b''], [''c'', ''d''], [''d'', ''e'']]))) \<and>
      test_words st
        = words_of (drop j (edges (syn_graph [[''a'', ''b''], [''c'', ''d''], [''d'', ''e'']]))) \<and>
      (\<forall>i<length (edges (syn_graph [[''a'', ''b''], [''c'', ''d''], [''d'', ''e'']])).
         i < j \<longleftrightarrow>
         of_nat (length (words_of
           (take (min i j) (edges (syn_graph [[''a'', ''b''], [''c'', ''d''], [''d'', ''e'']])))))
         < code_threshold (syn_graph [[''a'', ''b''], [''c'', ''d''], [''d'', ''e'']]) (1 / 2) 1)) \<and>
   code_threshold (syn_graph [[''a'', ''b''], [''c'', ''d''], [''d'', ''e'']]) (1 / 2) 1 = 2 \<and>
   split_graph ''noun'' (syn_graph [[''a'', ''b''], [''c'', ''d''], [''d'', ''e'']]) (1 / 2)
     = Inr \<lparr>train_words = [''a'', ''b''], test_words = [''c'', ''d'', ''e''],
            train_edges = [(''a'', ''b'')], test_edges = [(''c'', ''d''), (''d'', ''e'')]\<rparr>"
proof -
  have w: "weights ''noun'' = Some 1"
    by (simp add: weights_def)
  have t: "code_threshold (syn_graph [[''a'', ''b''], [''c'', ''d''], [''d'', ''e'']]) (1 / 2) 1 = 2"
    by (simp add: model_defs float_evals code_threshold_def)
  have s: "split_graph ''noun'' (syn_graph [[''a'', ''b''], [''c'', ''d''], [''d'', ''e'']]) (1 / 2)
     = Inr \<lparr>train_words = [''a'', ''b''], test_words = [''c'', ''d'', ''e''],
            train_edges = [(''a'', ''b'')], test_edges = [(''c'', ''d''), (''d'', ''e'')]\<rparr>"
    by (simp add: model_defs float_evals)
  have f: "train_len_finite (syn_graph [[''a'', ''b''], [''c'', ''d''], [''d'', ''e'']]) (1 / 2)"
    by (simp add: train_len_finite_def model_defs float_evals finite_double_small)
  from split_threshold_rule[OF w f] w f t s show ?thesis
    by blast
qed

text \<open>
  The claim as stated fails twice. With five vertices, \<open>r = 1/2\<close> and \<open>m = 1\<close> the second
  edge (c, d) is processed when \<^verbatim>\<open>train_words\<close> holds two words, fewer than
  \<open>r \<cdot> m \<cdot> 5 = 5/2\<close>, and it goes to test, since \<^verbatim>\<open>train_len\<close> is \<open>int(5/2) = 2\<close>. And for the
  synsets a, b and c, d and a, c the edge (c, d) is inserted second but listed last by
  \<^verbatim>\<open>graph.edges\<close>: with \<open>r = 3/4\<close> it is processed when \<^verbatim>\<open>train_words\<close> holds three words and
  goes to test, while as the second edge it would meet two words, fewer than either
  threshold (both are 3), and go to train.
\<close>

theorem split_threshold_counterexample:
  "edges (syn_graph [[''a'', ''b''], [''c'', ''d''], [''d'', ''e'']])
     = [(''a'', ''b''), (''c'', ''d''), (''d'', ''e'')] \<and>
   weights ''noun'' = Some 1 \<and>
   split_graph ''noun'' (syn_graph [[''a'', ''b''], [''c'', ''d''], [''d'', ''e'']]) (1 / 2)
     = Inr \<lparr>train_words = [''a'', ''b''], test_words = [''c'', ''d'', ''e''],
            train_edges = [(''a'', ''b'')], test_edges = [(''c'', ''d''), (''d'', ''e'')]\<rparr> \<and>
   of_nat (length (words_of [(''a'', ''b'')]))
     < spec_threshold (syn_graph [[''a'', ''b''], [''c'', ''d''], [''d'', ''e'']]) (1 / 2) 1 \<and>
   spec_edge_order [[''a'', ''b''], [''c'', ''d''], [''a'', ''c'']]
     = [(''a'', ''b''), (''c'', ''d''), (''a'', ''c'')] \<and>
   edges (syn_graph [[''a'', ''b''], [''c'', ''d''], [''a'', ''c'']])
     = [(''a'', ''b''), (''a'', ''c''), (''c'', ''d'')] \<and>
   split_graph ''noun'' (syn_graph [[''a'', ''b''], [''c'', ''d''], [''a'', ''c'']]) (3 / 4)
     = Inr \<lparr>train_words = [''a'', ''b'', ''c''], test_words = [''c'', ''d''],
            train_edges = [(''a'', ''b''), (''a'', ''c'')], test_edges = [(''c'', ''d'')]\<rparr> \<and>
   of_nat (length (words_of [(''a'', ''b'')]))
     < code_threshold (syn_graph [[''a'', ''b''], [''c'', ''d''], [''a'', ''c'']]) (3 / 4) 1 \<and>
   of_nat (length (words_of [(''a'', ''b'')]))
     < spec_threshold (syn_graph [[''a'', ''b''], [''c'', ''d''], [''a'', ''c'']]) (3 / 4) 1"
  by (simp add: model_defs float_evals words_of_def endpoints_def spec_threshold_def
      code_threshold_def spec_edge_order_def)

subsection \<open>Every edge is in exactly one split\<close>

text \<open>
  Claim C8: for a graph and a part of speech that has a weight, the splitter returns, the
  train edges followed by the test edges are the edges of the graph in their order, so the
  two lists together hold exactly the edges of the graph, and no edge is in both.
\<close>

theorem split_coverage:
  assumes "weights p = Some m" and "wf_graph g"
  shows "\<exists>st. split_graph p g r = Inr st \<and>
           train_edges st @ test_edges st = edges g \<and>
           set (train_edges st) \<union> set (test_edges st) = set (edges g) \<and>
           set (train_edges st) \<inter> set (test_edges st) = {}"
proof -
  from split_graph_prefix[OF assms(1), of g r]
  obtain st j where st: "split_graph p g r = Inr st"
    "train_edges st = take j (edges g)" "test_edges st = drop j (edges g)"
    by blast
  have app: "train_edges st @ test_edges st = edges g"
    by (simp add: st)
  have "distinct (train_edges st @ test_edges st)"
    using distinct_edges[OF assms(2)] by (simp only: app)
  then have "set (train_edges st) \<inter> set (test_edges st) = {}"
    by simp
  moreover have "set (train_edges st) \<union> set (test_edges st) = set (edges g)"
    using app by (metis set_append)
  ultimately show ?thesis
    using st(1) app by blast
qed

theorem split_coverage_witness:
  "weights ''verb'' = Some (115 / 100) \<and>
   wf_graph (syn_graph [[''a'', ''b''], [''c'', ''d''], [''d'', ''e'']]) \<and>
   (\<exists>st. split_graph ''verb'' (syn_graph [[''a'', ''b''], [''c'', ''d''], [''d'', ''e'']]) (1 / 2)
            = Inr st \<and>
      train_edges st @ test_edges st
        = edges (syn_graph [[''a'', ''b''], [''c'', ''d''], [''d'', ''e'']]) \<and>
      set (train_edges st) \<union> set (test_edges st)
        = set (edges (syn_graph [[''a'', ''b''], [''c'', ''d''], [''d'', ''e'']])) \<and>
      set (train_edges st) \<inter> set (test_edges st) = {})"
proof -
  have w: "weights ''verb'' = Some (115 / 100)"
    by (simp add: weights_def)
  have g: "wf_graph (syn_graph [[''a'', ''b''], [''c'', ''d''], [''d'', ''e'']])"
    by (simp add: wf_graph_def model_defs float_evals)
  from split_coverage[OF w g] w g show ?thesis
    by blast
qed

subsection \<open>No word of the intersection is emitted\<close>

text \<open>
  Claim C4: every record of a run, positive or negative, train or test, belongs to a graph of
  the input for which the splitter returned, and neither of its words is in the
  intersection of the train words and the test words of that graph.
\<close>

theorem no_leakage:
  assumes "r \<in> set (fst (create_dataset sgs ratio k rng))"
  shows "\<exists>g st. (pos r, g) \<in> set sgs \<and> split_graph (pos r) g ratio = Inr st \<and>
           set (intersection st) = set (train_words st) \<inter> set (test_words st) \<and>
           word1 r \<notin> set (intersection st) \<and> word2 r \<notin> set (intersection st)"
proof -
  from record_origin[OF assms] obtain g st w2 nbrs where
    g: "(pos r, g) \<in> set sgs" "split_graph (pos r) g ratio = Inr st"
    and clean: "word1 r \<notin> set (intersection st)" "w2 \<notin> set (intersection st)"
    and kind: "synonym r = 1 \<and> word2 r = w2 \<or>
      synonym r = 0 \<and> word2 r \<in> set (neg_words_of st (split r) (pos_words_of (word1 r) nbrs))"
    by blast
  have "word2 r \<notin> set (intersection st)"
    using kind clean(2) by (auto simp: neg_words_of_iff intersection_iff split: if_splits)
  moreover have "set (intersection st) = set (train_words st) \<inter> set (test_words st)"
    by (auto simp: intersection_iff)
  ultimately show ?thesis
    using g clean(1) by blast
qed

theorem no_leakage_witness:
  "create_dataset [(''noun'', syn_graph mixed_synsets)] (1 / 2) 1 (\<lambda>i. 0)
   = ([\<lparr>word1 = ''aaa'', word2 = ''bbb'', synonym = 1, pos = ''noun'', split = ''train''\<rparr>,
       \<lparr>word1 = ''aaa'', word2 = ''ccc'', synonym = 0, pos = ''noun'', split = ''train''\<rparr>,
       \<lparr>word1 = ''eee'', word2 = ''fff'', synonym = 1, pos = ''noun'', split = ''test''\<rparr>,
       \<lparr>word1 = ''eee'', word2 = ''ggg'', synonym = 0, pos = ''noun'', split = ''test''\<rparr>,
       \<lparr>word1 = ''ggg'', word2 = ''hhh'', synonym = 1, pos = ''noun'', split = ''test''\<rparr>,
       \<lparr>word1 = ''ggg'', word2 = ''eee'', synonym = 0, pos = ''noun'', split = ''test''\<rparr>],
      None) \<and>
   split_graph ''noun'' (syn_graph mixed_synsets) (1 / 2) = Inr mixed_state \<and>
   intersection mixed_state = [''ddd''] \<and>
   word1 \<lparr>word1 = ''aaa'', word2 = ''ccc'', synonym = 0, pos = ''noun'', split = ''train''\<rparr>
     \<notin> set (intersection mixed_state) \<and>
   word2 \<lparr>word1 = ''aaa'', word2 = ''ccc'', synonym = 0, pos = ''noun'', split = ''train''\<rparr>
     \<notin> set (intersection mixed_state) \<and>
   word1 \<lparr>word1 = ''eee'', word2 = ''fff'', synonym = 1, pos = ''noun'', split = ''test''\<rparr>
     \<notin> set (intersection mixed_state) \<and>
   word2 \<lparr>word1 = ''eee'', word2 = ''fff'', synonym = 1, pos = ''noun'', split = ''test''\<rparr>
     \<notin> set (intersection mixed_state) \<and>
   word1 \<lparr>word1 = ''ggg'', word2 = ''eee'', synonym = 0, pos = ''noun'', split = ''test''\<rparr>
     \<notin> set (intersection mixed_state) \<and>
   word2 \<lparr>word1 = ''ggg'', word2 = ''eee'', synonym = 0, pos = ''noun'', split = ''test''\<rparr>
     \<notin> set (intersection mixed_state)"
proof -
  have inter: "intersection mixed_state = [''ddd'']"
    by (simp add: intersection_def set_intersection_def)
  have clean: "word1 r \<notin> set (intersection mixed_state) \<and>
      word2 r \<notin> set (intersection mixed_state)"
    if r: "r \<in> set (fst (create_dataset [(''noun'', syn_graph mixed_synsets)] (1 / 2) 1 (\<lambda>i. 0)))" for r
  proof -
    from no_leakage[OF r] obtain g st where
      g: "(pos r, g) \<in> set [(''noun'', syn_graph mixed_synsets)]"
      and st: "split_graph (pos r) g (1 / 2) = Inr st"
      and out: "word1 r \<notin> set (intersection st)" "word2 r \<notin> set (intersection st)"
      by blast
    from g st have "st = mixed_state"
      by (rule mixed_graph_unique)
    with out show ?thesis
      by simp
  qed
  have members:
    "\<lparr>word1 = ''aaa'', word2 = ''ccc'', synonym = 0, pos = ''noun'', split = ''train''\<rparr>
       \<in> set (fst (create_dataset [(''noun'', syn_graph mixed_synsets)] (1 / 2) 1 (\<lambda>i. 0)))"
    "\<lparr>word1 = ''eee'', word2 = ''fff'', synonym = 1, pos = ''noun'', split = ''test''\<rparr>
       \<in> set (fst (create_dataset [(''noun'', syn_graph mixed_synsets)] (1 / 2) 1 (\<lambda>i. 0)))"
    "\<lparr>word1 = ''ggg'', word2 = ''eee'', synonym = 0, pos = ''noun'', split = ''test''\<rparr>
       \<in> set (fst (create_dataset [(''noun'', syn_graph mixed_synsets)] (1 / 2) 1 (\<lambda>i. 0)))"
    unfolding mixed_run by simp_all
  from clean[OF members(1)] clean[OF members(2)] clean[OF members(3)] inter mixed_split mixed_run
  show ?thesis
    by blast
qed

subsection \<open>The edit-distance filter\<close>

text \<open>
  Claim C6: a record with label 1 has words at edit distance at least 2 (the threshold is
  the constant 2 in the code); an edge whose words are closer yields no record, draws
  nothing and raises nothing, so a run over a list of edges is the run over the list
  without such edges.
\<close>

theorem edit_distance_filter:
  "(r \<in> set (fst (create_dataset sgs ratio k rng)) \<and> synonym r = 1
      \<longrightarrow> 2 \<le> editdistance_eval (word1 r) (word2 r)) \<and>
   (editdistance_eval w1 w2 < 2 \<longrightarrow> emit_pair g p st k rng sp (w1, w2) i = Inr ([], i)) \<and>
   emit_pairs g p st k rng sp es j
     = emit_pairs g p st k rng sp (filter (\<lambda>(w1, w2). \<not> editdistance_eval w1 w2 < 2) es) j"
proof (intro conjI impI)
  assume "r \<in> set (fst (create_dataset sgs ratio k rng)) \<and> synonym r = 1"
  then have r: "r \<in> set (fst (create_dataset sgs ratio k rng))" and one: "synonym r = 1"
    by simp_all
  from record_origin[OF r] obtain w2 where "\<not> editdistance_eval (word1 r) w2 < 2"
    "synonym r = 1 \<and> word2 r = w2 \<or> synonym r = 0"
    by blast
  with one show "2 \<le> editdistance_eval (word1 r) (word2 r)"
    by auto
next
  assume "editdistance_eval w1 w2 < 2"
  then show "emit_pair g p st k rng sp (w1, w2) i = Inr ([], i)"
    by (simp add: emit_pair_def)
next
  show "emit_pairs g p st k rng sp es j
     = emit_pairs g p st k rng sp (filter (\<lambda>(w1, w2). \<not> editdistance_eval w1 w2 < 2) es) j"
    by (rule emit_pairs_skip_near)
qed

theorem edit_distance_filter_witness:
  "\<lparr>word1 = ''car'', word2 = ''auto'', synonym = 1, pos = ''noun'', split = ''train''\<rparr> \<in> set (fst (create_dataset [(''noun'', syn_graph [[''car'', ''auto''], [''cars'', ''cart'']])] 1 1 (\<lambda>i. 0))) \<and> synonym \<lparr>word1 = ''car'', word2 = ''auto'', synonym = 1, pos = ''noun'', split = ''train''\<rparr> = 1 \<and>
   2 \<le> editdistance_eval (word1 \<lparr>word1 = ''car'', word2 = ''auto'', synonym = 1, pos = ''noun'', split = ''train''\<rparr>) (word2 \<lparr>word1 = ''car'', word2 = ''auto'', synonym = 1, pos = ''noun'', split = ''train''\<rparr>) \<and>
   editdistance_eval ''cars'' ''cart'' < 2 \<and>
   emit_pair (syn_graph [[''car'', ''auto''], [''cars'', ''cart'']]) ''noun''
     \<lparr>train_words = [''car'', ''auto'', ''cars'', ''cart''], test_words = [],
      train_edges = [(''car'', ''auto''), (''cars'', ''cart'')], test_edges = []\<rparr>
     1 (\<lambda>i. 0) ''train'' (''cars'', ''cart'') 1 = Inr ([], 1) \<and>
   emit_pairs (syn_graph [[''car'', ''auto''], [''cars'', ''cart'']]) ''noun''
     \<lparr>train_words = [''car'', ''auto'', ''cars'', ''cart''], test_words = [],
      train_edges = [(''car'', ''auto''), (''cars'', ''cart'')], test_edges = []\<rparr>
     1 (\<lambda>i. 0) ''train'' [(''car'', ''auto''), (''cars'', ''cart'')] 0
   = emit_pairs (syn_graph [[''car'', ''auto''], [''cars'', ''cart'']]) ''noun''
     \<lparr>train_words = [''car'', ''auto'', ''cars'', ''cart''], test_words = [],
      train_edges = [(''car'', ''auto''), (''cars'', ''cart'')], test_edges = []\<rparr>
     1 (\<lambda>i. 0) ''train''
     (filter (\<lambda>(w1, w2). \<not> editdistance_eval w1 w2 < 2) [(''car'', ''auto''), (''cars'', ''cart'')]) 0"
proof -
  have r: "\<lparr>word1 = ''car'', word2 = ''auto'', synonym = 1, pos = ''noun'', split = ''train''\<rparr> \<in> set (fst (create_dataset [(''noun'', syn_graph [[''car'', ''auto''], [''cars'', ''cart'']])] 1 1 (\<lambda>i. 0))) \<and> synonym \<lparr>word1 = ''car'', word2 = ''auto'', synonym = 1, pos = ''noun'', split = ''train''\<rparr> = 1"
    unfolding car_run by simp
  have near: "editdistance_eval ''cars'' ''cart'' < 2"
    by simp
  from edit_distance_filter[where r = "\<lparr>word1 = ''car'', word2 = ''auto'', synonym = 1, pos = ''noun'', split = ''train''\<rparr>"
      and sgs = "[(''noun'', syn_graph [[''car'', ''auto''], [''cars'', ''cart'']])]"
      and ratio = 1 and k = 1 and rng = "\<lambda>i. 0" and ?w1.0 = "''cars''" and ?w2.0 = "''cart''"
      and g = "syn_graph [[''car'', ''auto''], [''cars'', ''cart'']]" and p = "''noun''"
      and st = "\<lparr>train_words = [''car'', ''auto'', ''cars'', ''cart''], test_words = [],
        train_edges = [(''car'', ''auto''), (''cars'', ''cart'')], test_edges = []\<rparr>"
      and sp = "''train''" and i = 1 and es = "[(''car'', ''auto''), (''cars'', ''cart'')]"
      and j = 0] r near
  show ?thesis
    by blast
qed

subsection \<open>Negatives are not neighbours\<close>

text \<open>
  Claim C7: in a record with label 0 the second word differs from the first and is not
  among the neighbours of the first in the graph of the record's part of speech.
\<close>

theorem negative_disjointness:
  assumes "r \<in> set (fst (create_dataset sgs ratio k rng))" and "synonym r = 0"
  shows "\<exists>g nbrs. (pos r, g) \<in> set sgs \<and> neighbors g (word1 r) = Some nbrs \<and>
           word2 r \<noteq> word1 r \<and> word2 r \<notin> set nbrs \<and> \<not> adjacent g (word1 r) (word2 r)"
proof -
  from record_origin[OF assms(1)] assms(2) obtain g st nbrs where
    g: "(pos r, g) \<in> set sgs" "neighbors g (word1 r) = Some nbrs"
    and neg: "word2 r \<in> set (neg_words_of st (split r) (pos_words_of (word1 r) nbrs))"
    by auto
  from neg have "word2 r \<noteq> word1 r" "word2 r \<notin> set nbrs"
    by (simp_all add: neg_words_of_iff)
  moreover from this g(2) have "\<not> adjacent g (word1 r) (word2 r)"
    by (simp add: adjacent_def)
  ultimately show ?thesis
    using g by blast
qed

theorem negative_disjointness_witness:
  "\<lparr>word1 = ''car'', word2 = ''cars'', synonym = 0, pos = ''noun'', split = ''train''\<rparr> \<in> set (fst (create_dataset [(''noun'', syn_graph [[''car'', ''auto''], [''cars'', ''cart'']])] 1 1 (\<lambda>i. 0))) \<and> synonym \<lparr>word1 = ''car'', word2 = ''cars'', synonym = 0, pos = ''noun'', split = ''train''\<rparr> = 0 \<and>
   (\<exists>g nbrs. (pos \<lparr>word1 = ''car'', word2 = ''cars'', synonym = 0, pos = ''noun'', split = ''train''\<rparr>, g) \<in> set [(''noun'', syn_graph [[''car'', ''auto''], [''cars'', ''cart'']])] \<and> neighbors g (word1 \<lparr>word1 = ''car'', word2 = ''cars'', synonym = 0, pos = ''noun'', split = ''train''\<rparr>) = Some nbrs \<and>
      word2 \<lparr>word1 = ''car'', word2 = ''cars'', synonym = 0, pos = ''noun'', split = ''train''\<rparr> \<noteq> word1 \<lparr>word1 = ''car'', word2 = ''cars'', synonym = 0, pos = ''noun'', split = ''train''\<rparr> \<and> word2 \<lparr>word1 = ''car'', word2 = ''cars'', synonym = 0, pos = ''noun'', split = ''train''\<rparr> \<notin> set nbrs \<and>
      \<not> adjacent g (word1 \<lparr>word1 = ''car'', word2 = ''cars'', synonym = 0, pos = ''noun'', split = ''train''\<rparr>) (word2 \<lparr>word1 = ''car'', word2 = ''cars'', synonym = 0, pos = ''noun'', split = ''train''\<rparr>))"
proof -
  have r: "\<lparr>word1 = ''car'', word2 = ''cars'', synonym = 0, pos = ''noun'', split = ''train''\<rparr> \<in> set (fst (create_dataset [(''noun'', syn_graph [[''car'', ''auto''], [''cars'', ''cart'']])] 1 1 (\<lambda>i. 0)))" and z: "synonym \<lparr>word1 = ''car'', word2 = ''cars'', synonym = 0, pos = ''noun'', split = ''train''\<rparr> = 0"
    unfolding car_run by simp_all
  from negative_disjointness[OF r z] r z show ?thesis
    by blast
qed

subsection \<open>Negatives come from the split of their edge\<close>

text \<open>
  Claim C9: the second word of a record with label 0 is a train word and no test word when
  the record is in the train split, and a test word and no train word when it is in the
  test split.
\<close>

theorem negatives_from_own_split:
  assumes "r \<in> set (fst (create_dataset sgs ratio k rng))" and "synonym r = 0"
  shows "\<exists>g st. (pos r, g) \<in> set sgs \<and> split_graph (pos r) g ratio = Inr st \<and>
           (split r = ''train'' \<and> word2 r \<in> set (train_words st) \<and> word2 r \<notin> set (test_words st) \<or>
            split r = ''test'' \<and> word2 r \<in> set (test_words st) \<and> word2 r \<notin> set (train_words st))"
proof -
  from record_origin[OF assms(1)] assms(2) obtain g st w2 nbrs where
    g: "(pos r, g) \<in> set sgs" "split_graph (pos r) g ratio = Inr st"
    and sp: "split r = ''train'' \<and> (word1 r, w2) \<in> set (train_edges st) \<or>
      split r = ''test'' \<and> (word1 r, w2) \<in> set (test_edges st)"
    and neg: "word2 r \<in> set (neg_words_of st (split r) (pos_words_of (word1 r) nbrs))"
    by auto
  from sp have "split r = ''train'' \<or> split r = ''test''"
    by blast
  then have "split r = ''train'' \<and> word2 r \<in> set (train_words st) \<and> word2 r \<notin> set (test_words st) \<or>
      split r = ''test'' \<and> word2 r \<in> set (test_words st) \<and> word2 r \<notin> set (train_words st)"
    using neg by (auto simp: neg_words_of_iff)
  with g show ?thesis
    by blast
qed

theorem negatives_from_own_split_witness:
  "create_dataset [(''noun'', syn_graph mixed_synsets)] (1 / 2) 1 (\<lambda>i. 0)
   = ([\<lparr>word1 = ''aaa'', word2 = ''bbb'', synonym = 1, pos = ''noun'', split = ''train''\<rparr>,
       \<lparr>word1 = ''aaa'', word2 = ''ccc'', synonym = 0, pos = ''noun'', split = ''train''\<rparr>,
       \<lparr>word1 = ''eee'', word2 = ''fff'', synonym = 1, pos = ''noun'', split = ''test''\<rparr>,
       \<lparr>word1 = ''eee'', word2 = ''ggg'', synonym = 0, pos = ''noun'', split = ''test''\<rparr>,
       \<lparr>word1 = ''ggg'', word2 = ''hhh'', synonym = 1, pos = ''noun'', split = ''test''\<rparr>,
       \<lparr>word1 = ''ggg'', word2 = ''eee'', synonym = 0, pos = ''noun'', split = ''test''\<rparr>],
      None) \<and>
   split_graph ''noun'' (syn_graph mixed_synsets) (1 / 2) = Inr mixed_state \<and>
   ''ddd'' \<in> set (train_words mixed_state) \<and> ''ddd'' \<in> set (test_words mixed_state) \<and>
   ''ccc'' \<in> set (train_words mixed_state) \<and> ''ccc'' \<notin> set (test_words mixed_state) \<and>
   ''eee'' \<in> set (test_words mixed_state) \<and> ''eee'' \<notin> set (train_words mixed_state) \<and>
   ''ggg'' \<in> set (test_words mixed_state) \<and> ''ggg'' \<notin> set (train_words mixed_state)"
proof -
  have own: "split r = ''train'' \<and> word2 r \<in> set (train_words mixed_state) \<and>
        word2 r \<notin> set (test_words mixed_state) \<or>
      split r = ''test'' \<and> word2 r \<in> set (test_words mixed_state) \<and>
        word2 r \<notin> set (train_words mixed_state)"
    if r: "r \<in> set (fst (create_dataset [(''noun'', syn_graph mixed_synsets)] (1 / 2) 1 (\<lambda>i. 0)))"
      and z: "synonym r = 0" for r
  proof -
    from negatives_from_own_split[OF r z] obtain g st where
      g: "(pos r, g) \<in> set [(''noun'', syn_graph mixed_synsets)]"
      and st: "split_graph (pos r) g (1 / 2) = Inr st"
      and out: "split r = ''train'' \<and> word2 r \<in> set (train_words st) \<and>
          word2 r \<notin> set (test_words st) \<or>
        split r = ''test'' \<and> word2 r \<in> set (test_words st) \<and>
          word2 r \<notin> set (train_words st)"
      by blast
    from g st have "st = mixed_state"
      by (rule mixed_graph_unique)
    with out show ?thesis
      by simp
  qed
  have members:
    "\<lparr>word1 = ''aaa'', word2 = ''ccc'', synonym = 0, pos = ''noun'', split = ''train''\<rparr>
       \<in> set (fst (create_dataset [(''noun'', syn_graph mixed_synsets)] (1 / 2) 1 (\<lambda>i. 0)))"
    "\<lparr>word1 = ''eee'', word2 = ''ggg'', synonym = 0, pos = ''noun'', split = ''test''\<rparr>
       \<in> set (fst (create_dataset [(''noun'', syn_graph mixed_synsets)] (1 / 2) 1 (\<lambda>i. 0)))"
    "\<lparr>word1 = ''ggg'', word2 = ''eee'', synonym = 0, pos = ''noun'', split = ''test''\<rparr>
       \<in> set (fst (create_dataset [(''noun'', syn_graph mixed_synsets)] (1 / 2) 1 (\<lambda>i. 0)))"
    unfolding mixed_run by simp_all
  have shared: "''ddd'' \<in> set (train_words mixed_state) \<and> ''ddd'' \<in> set (test_words mixed_state)"
    by simp
  from own[OF members(1)]
  have train: "''ccc'' \<in> set (train_words mixed_state) \<and> ''ccc'' \<notin> set (test_words mixed_state)"
    by simp
  from own[OF members(2)]
  have test1: "''ggg'' \<in> set (test_words mixed_state) \<and> ''ggg'' \<notin> set (train_words mixed_state)"
    by simp
  from own[OF members(3)]
  have test2: "''eee'' \<in> set (test_words mixed_state) \<and> ''eee'' \<notin> set (train_words mixed_state)"
    by simp
  from shared train test1 test2 mixed_split mixed_run show ?thesis
    by blast
qed

subsection \<open>The empty negative pool\<close>

text \<open>
  Claim C1: an edge that passes both filters and whose negative pool is empty should yield
  no negative records and leave the run going. The code does not do that. The adjective
  graph below has the single edge (big, large); it passes both filters and its pool is
  empty, so \<^verbatim>\<open>random.choices\<close> raises \<^verbatim>\<open>IndexError\<close>, whatever the random sequence is. The
  run ends there with no record at all: the noun graph after it, which yields two records
  when run alone, is never reached. The same happens at every such edge when at least one
  negative is asked for (\<open>emit_pair_empty_pool\<close>).
\<close>

theorem empty_pool_aborts_run:
  "create_dataset
     [(''adjective'', syn_graph [[''big'', ''large'']]),
      (''noun'', syn_graph [[''car'', ''auto''], [''cars'', ''cart'']])] 1 1 rng
   = ([], Some IndexError)"
  by (simp add: model_defs float_evals)

subsection \<open>Negatives are not filtered by edit distance\<close>

text \<open>
  Claim C10: the edit-distance filter applies to the positive pair only. For the noun
  graph with the edges (car, auto) and (cars, cart), train fraction 1 and one negative
  per edge, every random sequence yields the positive record (car, auto) and one negative
  record for car whose second word is at edit distance below 2 from it (cars or cart,
  neither a neighbour of car); the edge (cars, cart) itself is rejected by the filter.
\<close>

theorem negative_below_edit_threshold:
  "\<exists>w3. create_dataset [(''noun'', syn_graph [[''car'', ''auto''], [''cars'', ''cart'']])] 1 1 rng
          = ([\<lparr>word1 = ''car'', word2 = ''auto'', synonym = 1, pos = ''noun'', split = ''train''\<rparr>,
              \<lparr>word1 = ''car'', word2 = w3, synonym = 0, pos = ''noun'', split = ''train''\<rparr>],
             None)
        \<and> editdistance_eval ''car'' w3 < 2"
proof -
  define j where "j = rng 0 mod Suc (Suc 0)"
  have run:
    "create_dataset [(''noun'', syn_graph [[''car'', ''auto''], [''cars'', ''cart'']])] 1 1 rng
     = ([\<lparr>word1 = ''car'', word2 = ''auto'', synonym = 1, pos = ''noun'', split = ''train''\<rparr>,
         \<lparr>word1 = ''car'', word2 = [''cars'', ''cart''] ! j, synonym = 0, pos = ''noun'',
          split = ''train''\<rparr>], None)"
    unfolding j_def by (simp add: model_defs float_evals)
  have "j = 0 \<or> j = 1"
    unfolding j_def by arith
  then have "editdistance_eval ''car'' ([''cars'', ''cart''] ! j) < 2"
    by (elim disjE) simp_all
  with run show ?thesis
    by blast
qed

end
